theory Spec2Isabelle
  imports Complex_Main
begin

section \<open>Numbers\<close>

text \<open>
  The TypeScript sources compute with JavaScript numbers. They are modelled as reals:
  arithmetic on doubles is exact arithmetic. The statements about the return-mode state
  machine, the path renderer and the path generator are statements of exact arithmetic,
  and there the typed arrays hold the reals written to them. The continuity of a speed
  change is a statement about a numerical tolerance, so \<open>setAnimationSpeed\<close> rounds what it
  stores into its \<^verbatim>\<open>Float32Array\<close> to binary32, as the array does. A quotient by zero,
  which is NaN or an infinity in JavaScript, is 0 in HOL; no statement below depends on
  the value of one. Slot indices and counts are integers, as every caller passes them.

  The remainder operator \<^verbatim>\<open>%\<close> of JavaScript truncates the quotient towards zero, so its
  result has the sign of the dividend.
\<close>

definition js_trunc :: "real \<Rightarrow> int" where
  "js_trunc r = (if 0 \<le> r then \<lfloor>r\<rfloor> else \<lceil>r\<rceil>)"

definition js_rem :: "real \<Rightarrow> real \<Rightarrow> real" where
  "js_rem a b = a - b * of_int (js_trunc (a / b))"

text \<open>\<^verbatim>\<open>a || b\<close> on numbers: the left operand unless it is zero.\<close>

definition js_or :: "real \<Rightarrow> real \<Rightarrow> real" where
  "js_or a b = (if a = 0 then b else a)"

text \<open>
  \<^verbatim>\<open>TypedArray.prototype.fill(value, start, end)\<close>: a negative bound counts from the end,
  and both bounds are clamped to the array.
\<close>

definition js_relative_index :: "int \<Rightarrow> nat \<Rightarrow> nat" where
  "js_relative_index k len =
     (if k < 0 then nat (max (int len + k) 0) else nat (min k (int len)))"

definition js_fill :: "'a \<Rightarrow> int \<Rightarrow> int \<Rightarrow> 'a list \<Rightarrow> 'a list" where
  "js_fill v start fin xs =
     (let k = js_relative_index start (length xs);
          final = js_relative_index fin (length xs)
      in map (\<lambda>j. if k \<le> j \<and> j < final then v else xs ! j) [0..<length xs])"

text \<open>
  A store into a \<^verbatim>\<open>Float32Array\<close> rounds to the nearest binary32 number, ties to the even
  significand. \<open>float32_exponent a\<close> is the binary exponent of \<open>a > 0\<close>, found by halving
  or doubling \<open>a\<close> until it lies in \<open>[1, 2)\<close> and not below -126, the exponent of the
  subnormal numbers; the spacing of binary32 numbers at \<open>a\<close> is then \<open>2\<close> to the exponent
  minus 23. A magnitude that the array would round to an infinity (from about
  \<open>3.4e38\<close>) is outside the model: it is rounded at its own exponent.
\<close>

definition round_half_even :: "real \<Rightarrow> int" where
  "round_half_even r =
     (let f = \<lfloor>r\<rfloor>; d = r - of_int f
      in if d < 1 / 2 then f else if 1 / 2 < d then f + 1 else if even f then f else f + 1)"

definition pow2 :: "int \<Rightarrow> real" where
  "pow2 e = (if 0 \<le> e then 2 ^ nat e else 1 / 2 ^ nat (- e))"

function exponent_up :: "real \<Rightarrow> int \<Rightarrow> int" where
  "exponent_up a e = (if 2 \<le> a then exponent_up (a / 2) (e + 1) else e)"
  by pat_completeness auto
termination
proof (relation "measure (\<lambda>(a, e). nat \<lfloor>a\<rfloor>)")
  show "wf (measure (\<lambda>(a, e). nat \<lfloor>a\<rfloor>))" by simp
next
  fix a :: real and e :: int
  assume a: "2 \<le> a"
  have "real_of_int \<lfloor>a / 2\<rfloor> \<le> a / 2" by (rule of_int_floor_le)
  moreover have "a - 1 < real_of_int \<lfloor>a\<rfloor>" by linarith
  ultimately have "real_of_int \<lfloor>a / 2\<rfloor> < real_of_int \<lfloor>a\<rfloor>" using a by linarith
  then have "\<lfloor>a / 2\<rfloor> < \<lfloor>a\<rfloor>" by simp
  moreover have "0 < \<lfloor>a\<rfloor>" using a by simp
  ultimately show "((a / 2, e + 1), (a, e)) \<in> measure (\<lambda>(a, e). nat \<lfloor>a\<rfloor>)" by simp
qed

function exponent_down :: "real \<Rightarrow> int \<Rightarrow> int" where
  "exponent_down a e = (if a < 1 \<and> - 126 < e then exponent_down (a * 2) (e - 1) else e)"
  by pat_completeness auto
termination
  by (relation "measure (\<lambda>(a, e). nat (e + 126))") auto

declare exponent_up.simps [simp del]

declare exponent_down.simps [simp del]

definition float32_exponent :: "real \<Rightarrow> int" where
  "float32_exponent a = (if 1 \<le> a then exponent_up a 0 else exponent_down a 0)"

definition float32 :: "real \<Rightarrow> real" where
  "float32 x =
     (if x = 0 then 0
      else (let a = \<bar>x\<bar>;
                q = pow2 (float32_exponent a - 23)
            in sgn x * (of_int (round_half_even (a / q)) * q)))"

section \<open>Vectors\<close>

text \<open>The part of \<^verbatim>\<open>THREE.Vector3\<close> that the sources use.\<close>

record Vector3 =
  vx :: real
  vy :: real
  vz :: real

definition vec :: "real \<Rightarrow> real \<Rightarrow> real \<Rightarrow> Vector3" where
  "vec a b c = \<lparr>vx = a, vy = b, vz = c\<rparr>"

definition lengthSq :: "Vector3 \<Rightarrow> real" where
  "lengthSq v = vx v * vx v + vy v * vy v + vz v * vz v"

definition vlength :: "Vector3 \<Rightarrow> real" where
  "vlength v = sqrt (lengthSq v)"

definition multiplyScalar :: "Vector3 \<Rightarrow> real \<Rightarrow> Vector3" where
  "multiplyScalar v s = vec (vx v * s) (vy v * s) (vz v * s)"

definition divideScalar :: "Vector3 \<Rightarrow> real \<Rightarrow> Vector3" where
  "divideScalar v s = multiplyScalar v (1 / s)"

text \<open>\<^verbatim>\<open>normalize()\<close> is \<^verbatim>\<open>divideScalar(length() || 1)\<close>: the zero vector stays zero.\<close>

definition normalize :: "Vector3 \<Rightarrow> Vector3" where
  "normalize v = divideScalar v (js_or (vlength v) 1)"

definition vadd :: "Vector3 \<Rightarrow> Vector3 \<Rightarrow> Vector3" where
  "vadd a b = vec (vx a + vx b) (vy a + vy b) (vz a + vz b)"

definition vsub :: "Vector3 \<Rightarrow> Vector3 \<Rightarrow> Vector3" where
  "vsub a b = vec (vx a - vx b) (vy a - vy b) (vz a - vz b)"

definition vdot :: "Vector3 \<Rightarrow> Vector3 \<Rightarrow> real" where
  "vdot a b = vx a * vx b + vy a * vy b + vz a * vz b"

definition crossVectors :: "Vector3 \<Rightarrow> Vector3 \<Rightarrow> Vector3" where
  "crossVectors a b =
     vec (vy a * vz b - vz a * vy b) (vz a * vx b - vx a * vz b) (vx a * vy b - vy a * vx b)"

definition lerp :: "Vector3 \<Rightarrow> Vector3 \<Rightarrow> real \<Rightarrow> Vector3" where
  "lerp a b alpha =
     vec (vx a + (vx b - vx a) * alpha) (vy a + (vy b - vy a) * alpha)
         (vz a + (vz b - vz a) * alpha)"

definition distanceTo :: "Vector3 \<Rightarrow> Vector3 \<Rightarrow> real" where
  "distanceTo a b = vlength (vsub a b)"

section \<open>PlanesShader: the instanced animator\<close>

text \<open>
  The per-instance buffers are flat arrays, as in the source: instance \<open>i\<close> owns the
  entries \<open>4 * i .. 4 * i + 3\<close> of \<open>animationParams\<close> (phase, speed, tilt mode, visible).
  A typed array ignores a write outside its bounds, which is what list update does.
  The geometry and the material are created by the constructor and never set to null,
  so their null checks always succeed; the uniforms are fields of the state, and the
  \<^verbatim>\<open>needsUpdate\<close> flags of the geometry attributes are the set of flagged attributes.
  Console warnings are collected in \<open>planesLog\<close>: \<open>PlanesNeedFourControlPoints\<close>
  stands for \<^verbatim>\<open>PlanesShader requires 4 control points\<close>; the other two warnings are
  those of the path renderer.
\<close>

datatype Warning =
  CurveIndexOutOfBounds int
  | NeedTwoControlPoints
  | PlanesNeedFourControlPoints

datatype PaneAttribute =
  AttrControlPointsPack1 | AttrControlPointsPack2 | AttrControlPointsPack3
  | AttrInstanceColor | AttrInstanceScale | AttrInstanceElevation
  | AttrInstanceUVTransform | AttrAnimationParams

record InternalAtlasInfo =
  columns :: real
  rows :: real
  count :: real
  scaleX :: real
  scaleY :: real

record PlanesShaderOptions =
  opt_maxPanes :: "nat option"
  opt_baseSize :: "real option"
  opt_returnMode :: "bool option"
  opt_baseElevation :: "real option"

record PlanesShader =
  maxPanes :: nat
  baseSize :: real
  returnModeEnabled :: bool
  defaultElevation :: real
  controlPointsPack1 :: "real list"
  controlPointsPack2 :: "real list"
  controlPointsPack3 :: "real list"
  instanceColors :: "real list"
  instanceScales :: "real list"
  instanceElevations :: "real list"
  instanceUvTransforms :: "real list"
  animationParams :: "real list"
  activePanes :: int
  atlasInfo :: "InternalAtlasInfo option"
  planesVisible :: bool
  returnModePreferred :: bool
  pendingReturnCompletion :: "nat list"
  uniformTime :: real
  uniformReturnMode :: real
  uniformPaneVisibility :: real
  paneNeedsUpdate :: "PaneAttribute set"
  planesLog :: "Warning list"

text \<open>
  The constructor and \<^verbatim>\<open>initialize()\<close>. \<open>random i\<close> is the value \<^verbatim>\<open>Math.random()\<close>
  returns for the phase of instance \<open>i\<close>.
\<close>

definition PlanesShader_new :: "PlanesShaderOptions \<Rightarrow> (nat \<Rightarrow> real) \<Rightarrow> PlanesShader" where
  "PlanesShader_new options random =
     (let m = (case opt_maxPanes options of None \<Rightarrow> 1000
               | Some k \<Rightarrow> if k = 0 then 1000 else k);
          b = (case opt_baseSize options of None \<Rightarrow> 100
               | Some k \<Rightarrow> js_or k 100);
          r = (case opt_returnMode options of None \<Rightarrow> False | Some k \<Rightarrow> k);
          e = (case opt_baseElevation options of None \<Rightarrow> 0 | Some k \<Rightarrow> k)
      in \<lparr>maxPanes = m, baseSize = b, returnModeEnabled = r, defaultElevation = e,
          controlPointsPack1 = replicate (m * 4) 0,
          controlPointsPack2 = replicate (m * 4) 0,
          controlPointsPack3 = replicate (m * 4) 0,
          instanceColors = replicate (m * 3) 1,
          instanceScales = replicate m 0,
          instanceElevations = replicate m e,
          instanceUvTransforms = concat (map (\<lambda>i. [0, 0, 1, 1]) [0..<m]),
          animationParams = concat (map (\<lambda>i. [random i, 1 / 10, 0, 0]) [0..<m]),
          activePanes = 0, atlasInfo = None, planesVisible = True,
          returnModePreferred = r,
          pendingReturnCompletion = replicate m 0,
          uniformTime = 0, uniformReturnMode = (if r then 1 else 0),
          uniformPaneVisibility = 1,
          paneNeedsUpdate = {AttrControlPointsPack1, AttrControlPointsPack2,
            AttrControlPointsPack3, AttrInstanceColor, AttrInstanceScale,
            AttrInstanceElevation, AttrInstanceUVTransform, AttrAnimationParams},
          planesLog = []\<rparr>)"

definition setCurveControlPoints :: "int \<Rightarrow> Vector3 list \<Rightarrow> PlanesShader \<Rightarrow> PlanesShader" where
  "setCurveControlPoints index controlPoints s =
     (if index < 0 \<or> index \<ge> int (maxPanes s) then s
      else if length controlPoints < 4
      then s\<lparr>planesLog := planesLog s @ [PlanesNeedFourControlPoints]\<rparr>
      else
        (let i = nat index;
             p0 = controlPoints ! 0; p1 = controlPoints ! 1;
             p2 = controlPoints ! 2; p3 = controlPoints ! 3
         in s\<lparr>controlPointsPack1 := (controlPointsPack1 s)
                  [i * 4 := vx p0, i * 4 + 1 := vy p0, i * 4 + 2 := vz p0, i * 4 + 3 := vx p1],
               controlPointsPack2 := (controlPointsPack2 s)
                  [i * 4 := vy p1, i * 4 + 1 := vz p1, i * 4 + 2 := vx p2, i * 4 + 3 := vy p2],
               controlPointsPack3 := (controlPointsPack3 s)
                  [i * 4 := vz p2, i * 4 + 1 := vx p3, i * 4 + 2 := vy p3, i * 4 + 3 := vz p3],
               animationParams := (animationParams s)[i * 4 + 3 := 1],
               paneNeedsUpdate := paneNeedsUpdate s \<union>
                  {AttrControlPointsPack1, AttrControlPointsPack2, AttrControlPointsPack3,
                   AttrAnimationParams}\<rparr>))"

definition getTimeUniform :: "PlanesShader \<Rightarrow> real" where
  "getTimeUniform s = uniformTime s"

definition wrapProgress :: "real \<Rightarrow> real \<Rightarrow> real" where
  "wrapProgress v period =
     (if period \<le> 0 then 0
      else (let result = js_rem v period
            in if result < 0 then result + period else result))"

definition epsilon :: real where
  "epsilon = 1 / 10000"

text \<open>
  One iteration of the loop of \<^verbatim>\<open>setReturnMode(false)\<close>, on the two arrays it writes
  and its local \<^verbatim>\<open>needsUpdate\<close>.
\<close>

definition setReturnMode_step ::
  "real \<Rightarrow> nat \<Rightarrow> real list \<times> nat list \<times> bool \<Rightarrow> real list \<times> nat list \<times> bool" where
  "setReturnMode_step timeUniform i st =
     (case st of (params, pending, needsUpdate) \<Rightarrow>
       (let baseIndex = i * 4 in
        if params ! (baseIndex + 3) < 1 / 2 then (params, pending, needsUpdate)
        else
          (let speed = params ! (baseIndex + 1);
               phase = params ! baseIndex;
               cycle = wrapProgress (timeUniform * speed + phase) 2
           in if cycle > 1 + epsilon then (params, pending[i := 1], needsUpdate)
              else if cycle > 1 - epsilon
              then (params[baseIndex := wrapProgress (phase - 1) 2], pending[i := 0], True)
              else (params, pending[i := 0], needsUpdate))))"

definition setReturnMode :: "bool \<Rightarrow> PlanesShader \<Rightarrow> PlanesShader" where
  "setReturnMode enabled s =
     (if enabled
      then
        (let s1 = s\<lparr>returnModePreferred := True,
                     pendingReturnCompletion :=
                       replicate (length (pendingReturnCompletion s)) 0\<rparr>
         in if \<not> returnModeEnabled s1
            then s1\<lparr>returnModeEnabled := True, uniformReturnMode := 1\<rparr>
            else s1)
      else
        (case fold (setReturnMode_step (getTimeUniform s)) [0..<nat (activePanes s)]
                (animationParams s, pendingReturnCompletion s, False)
         of (params, pending, needsUpdate) \<Rightarrow>
           s\<lparr>returnModePreferred := False,
             animationParams := params,
             pendingReturnCompletion := pending,
             paneNeedsUpdate := (if needsUpdate
                                 then insert AttrAnimationParams (paneNeedsUpdate s)
                                 else paneNeedsUpdate s)\<rparr>))"

text \<open>
  \<^verbatim>\<open>THREE.Color\<close> values arrive as their three components; the conversion of other
  colour representations is the library's.
\<close>

definition setPaneColor :: "int \<Rightarrow> real \<times> real \<times> real \<Rightarrow> PlanesShader \<Rightarrow> PlanesShader" where
  "setPaneColor index c s =
     (if index < 0 \<or> index \<ge> int (maxPanes s) then s
      else (case c of (r, g, b) \<Rightarrow>
        (let i = nat index
         in s\<lparr>instanceColors := (instanceColors s)[i * 3 := r, i * 3 + 1 := g, i * 3 + 2 := b],
               paneNeedsUpdate := insert AttrInstanceColor (paneNeedsUpdate s)\<rparr>)))"

definition setPaneSize :: "int \<Rightarrow> real \<Rightarrow> PlanesShader \<Rightarrow> PlanesShader" where
  "setPaneSize index sz s =
     (if index < 0 \<or> index \<ge> int (maxPanes s) then s
      else s\<lparr>instanceScales := (instanceScales s)[nat index := sz / baseSize s],
             paneNeedsUpdate := insert AttrInstanceScale (paneNeedsUpdate s)\<rparr>)"

definition setElevationOffset :: "int \<Rightarrow> real \<Rightarrow> PlanesShader \<Rightarrow> PlanesShader" where
  "setElevationOffset index offset s =
     (if index < 0 \<or> index \<ge> int (maxPanes s) then s
      else s\<lparr>instanceElevations := (instanceElevations s)[nat index := offset],
             paneNeedsUpdate := insert AttrInstanceElevation (paneNeedsUpdate s)\<rparr>)"

definition setAnimationSpeed :: "int \<Rightarrow> real \<Rightarrow> PlanesShader \<Rightarrow> PlanesShader" where
  "setAnimationSpeed index speed s =
     (if index < 0 \<or> index \<ge> int (maxPanes s) then s
      else
        (let baseIndex = nat index * 4;
             oldSpeed = animationParams s ! (baseIndex + 1);
             oldPhase = animationParams s ! baseIndex;
             timeUniform = getTimeUniform s;
             period = (if returnModeEnabled s then 2 else 1);
             currentProgress = wrapProgress (timeUniform * oldSpeed + oldPhase) period;
             newPhase = wrapProgress (currentProgress - timeUniform * speed) period
         in s\<lparr>animationParams := (animationParams s)
                  [baseIndex + 1 := float32 speed, baseIndex := float32 newPhase],
               paneNeedsUpdate := insert AttrAnimationParams (paneNeedsUpdate s)\<rparr>))"

datatype TiltMode = Perpendicular | Tangent

definition setTiltMode :: "int \<Rightarrow> TiltMode \<Rightarrow> PlanesShader \<Rightarrow> PlanesShader" where
  "setTiltMode index mode s =
     (if index < 0 \<or> index \<ge> int (maxPanes s) then s
      else s\<lparr>animationParams := (animationParams s)
                 [nat index * 4 + 2 := (if mode = Tangent then 1 else 0)],
             paneNeedsUpdate := insert AttrAnimationParams (paneNeedsUpdate s)\<rparr>)"

definition hidePane :: "int \<Rightarrow> PlanesShader \<Rightarrow> PlanesShader" where
  "hidePane index s =
     (if index < 0 \<or> index \<ge> int (maxPanes s) then s
      else s\<lparr>animationParams := (animationParams s)[nat index * 4 + 3 := 0],
             paneNeedsUpdate := insert AttrAnimationParams (paneNeedsUpdate s)\<rparr>)"

definition setActivePaneCount :: "int \<Rightarrow> PlanesShader \<Rightarrow> PlanesShader" where
  "setActivePaneCount cnt s =
     (let newCount = min cnt (int (maxPanes s));
          s1 = (if newCount < activePanes s
                then s\<lparr>pendingReturnCompletion :=
                         js_fill 0 newCount (activePanes s) (pendingReturnCompletion s)\<rparr>
                else s)
      in s1\<lparr>activePanes := newCount\<rparr>)"

definition setTextureIndex :: "int \<Rightarrow> real \<Rightarrow> PlanesShader \<Rightarrow> PlanesShader" where
  "setTextureIndex index textureIndex s =
     (if index < 0 \<or> index \<ge> int (maxPanes s) then s
      else
        (let uvIndex = nat index * 4;
             uv = (case atlasInfo s of
                Some a \<Rightarrow>
                  (let cols = max 1 (js_or (columns a) 1);
                       rws = max 1 (js_or (rows a) 1);
                       totalSlots = cols * rws;
                       cnt = max 1 (js_or (count a) totalSlots);
                       slot = js_rem (js_rem textureIndex cnt + cnt) cnt;
                       safeSlot = js_rem slot totalSlots;
                       col = js_rem safeSlot cols;
                       row = of_int \<lfloor>safeSlot / cols\<rfloor>;
                       sX = js_or (scaleX a) (1 / cols);
                       sY = js_or (scaleY a) (1 / rws)
                   in (instanceUvTransforms s)
                        [uvIndex := col * sX, uvIndex + 1 := row * sY,
                         uvIndex + 2 := sX, uvIndex + 3 := sY])
              | None \<Rightarrow> (instanceUvTransforms s)
                        [uvIndex := 0, uvIndex + 1 := 0, uvIndex + 2 := 1, uvIndex + 3 := 1])
         in s\<lparr>instanceUvTransforms := uv,
               paneNeedsUpdate := insert AttrInstanceUVTransform (paneNeedsUpdate s)\<rparr>))"

text \<open>
  One iteration of the loop of \<^verbatim>\<open>_reconcileReturnMode\<close>, on the two arrays it writes
  and its locals \<^verbatim>\<open>anyPending\<close> and \<^verbatim>\<open>needsUpdate\<close>.
\<close>

definition reconcile_step ::
  "real \<Rightarrow> nat \<Rightarrow> real list \<times> nat list \<times> bool \<times> bool
     \<Rightarrow> real list \<times> nat list \<times> bool \<times> bool" where
  "reconcile_step timeUniform i st =
     (case st of (params, pending, anyPending, needsUpdate) \<Rightarrow>
       (let baseIndex = i * 4 in
        if params ! (baseIndex + 3) < 1 / 2 then (params, pending, anyPending, needsUpdate)
        else
          (let speed = params ! (baseIndex + 1);
               phase = params ! baseIndex;
               cycle = wrapProgress (timeUniform * speed + phase) 2
           in if pending ! i \<noteq> 0
              then (if cycle \<le> 1 - epsilon
                    then (params[baseIndex := wrapProgress (- timeUniform * speed) 2],
                          pending[i := 0], anyPending, True)
                    else (params, pending, True, needsUpdate))
              else if cycle > 1 + epsilon
              then (params[baseIndex := wrapProgress (phase - 1) 2], pending, anyPending, True)
              else (params, pending, anyPending, needsUpdate))))"

definition reconcileReturnMode :: "PlanesShader \<Rightarrow> PlanesShader" where
  "reconcileReturnMode s =
     (if returnModePreferred s
      then (if \<not> returnModeEnabled s
            then s\<lparr>returnModeEnabled := True, uniformReturnMode := 1\<rparr>
            else s)
      else if \<not> returnModeEnabled s then s
      else
        (case fold (reconcile_step (getTimeUniform s)) [0..<nat (activePanes s)]
                (animationParams s, pendingReturnCompletion s, False, False)
         of (params, pending, anyPending, needsUpdate) \<Rightarrow>
           (let s1 = s\<lparr>animationParams := params,
                        pendingReturnCompletion := pending,
                        paneNeedsUpdate := (if needsUpdate
                                            then insert AttrAnimationParams (paneNeedsUpdate s)
                                            else paneNeedsUpdate s)\<rparr>
            in if \<not> anyPending
               then s1\<lparr>returnModeEnabled := False, uniformReturnMode := 0\<rparr>
               else s1)))"

definition update :: "real \<Rightarrow> PlanesShader \<Rightarrow> PlanesShader" where
  "update deltaTime s = reconcileReturnMode (s\<lparr>uniformTime := uniformTime s + deltaTime\<rparr>)"


section \<open>The three.js library\<close>

text \<open>
  The spline and colour conversions of three.js are not part of the repository. They are
  parameters of the model: \<open>curve_getPoint ps t\<close> is
  \<^verbatim>\<open>new THREE.CatmullRomCurve3(ps).getPoint(t)\<close>, \<open>color_ofHex\<close> the components of
  \<^verbatim>\<open>new THREE.Color(hex)\<close> and \<open>color_ofHSL\<close> those set by \<^verbatim>\<open>setHSL\<close>.
  \<^verbatim>\<open>getPoints(n)\<close> samples \<^verbatim>\<open>getPoint\<close> at \<open>0, 1/n, \<dots>, 1\<close>.
\<close>

record Three =
  curve_getPoint :: "Vector3 list \<Rightarrow> real \<Rightarrow> Vector3"
  color_ofHex :: "int \<Rightarrow> real \<times> real \<times> real"
  color_ofHSL :: "real \<Rightarrow> real \<Rightarrow> real \<Rightarrow> real \<times> real \<times> real"

definition curve_getPoints :: "Three \<Rightarrow> Vector3 list \<Rightarrow> nat \<Rightarrow> Vector3 list" where
  "curve_getPoints three ps n =
     map (\<lambda>d. curve_getPoint three ps (real d / real n)) [0..<n + 1]"

definition clamp :: "real \<Rightarrow> real \<Rightarrow> real \<Rightarrow> real" where
  "clamp v lo hi = max lo (min hi v)"

section \<open>Curves: the batched path renderer\<close>

datatype CurveColor =
  ColorNumber int
  | ColorObject "real \<times> real \<times> real"
  | GradientColor "real option" "real option"

record CurveMetadata =
  md_departure :: "(real \<times> real) option"

record CurveData =
  controlPoints :: "Vector3 list"
  color :: CurveColor
  visible :: bool
  metadata :: "CurveMetadata option"

record GradientParams =
  hue :: real
  saturation :: real
  lightnessStart :: real
  lightnessEnd :: real

record CurvesOptions =
  opt_maxCurves :: "nat option"
  opt_segmentsPerCurve :: "nat option"
  opt_dashSize :: "real option"
  opt_gapSize :: "real option"

text \<open>
  \<open>drawRange\<close> is the pair (start, count) last passed to \<^verbatim>\<open>geometry.setDrawRange\<close>; the
  geometry and the three buffers are created by the constructor and never set to null.
  \<open>curvesLog\<close> collects the console warnings: \<open>CurveIndexOutOfBounds i\<close> stands for
  \<^verbatim>\<open>Curve index i out of bounds\<close> and \<open>NeedTwoControlPoints\<close> for
  \<^verbatim>\<open>Need at least 2 control points for a curve\<close>.
\<close>

record Curves =
  maxCurves :: nat
  segmentsPerCurve :: nat
  verticesPerSegment :: nat
  verticesPerCurve :: nat
  dashSize :: real
  gapSize :: real
  positions :: "real list"
  colors :: "real list"
  lineDistances :: "real list"
  currentCurveCount :: int
  needsPositionUpdate :: bool
  needsColorUpdate :: bool
  needsLineDistanceUpdate :: bool
  curveData :: "CurveData list"
  drawRange :: "int \<times> int"
  curvesLog :: "Warning list"

definition Curves_new :: "CurvesOptions \<Rightarrow> Curves" where
  "Curves_new options =
     (let m = (case opt_maxCurves options of None \<Rightarrow> 1000
               | Some k \<Rightarrow> if k = 0 then 1000 else k);
          sg = (case opt_segmentsPerCurve options of None \<Rightarrow> 100
                | Some k \<Rightarrow> if k = 0 then 100 else k);
          vpc = sg * 2;
          totalVertices = m * vpc
      in \<lparr>maxCurves = m, segmentsPerCurve = sg, verticesPerSegment = 2,
          verticesPerCurve = vpc,
          dashSize = (case opt_dashSize options of None \<Rightarrow> 0 | Some k \<Rightarrow> k),
          gapSize = (case opt_gapSize options of None \<Rightarrow> 0 | Some k \<Rightarrow> k),
          positions = replicate (totalVertices * 3) 0,
          colors = replicate (totalVertices * 3) 0,
          lineDistances = replicate totalVertices 0,
          currentCurveCount = 0,
          needsPositionUpdate = False, needsColorUpdate = False,
          needsLineDistanceUpdate = False,
          curveData = replicate m
            \<lparr>controlPoints = [], color = ColorNumber 0xffffff, visible = False,
             metadata = None\<rparr>,
          drawRange = (0, 0),
          curvesLog = []\<rparr>)"

definition updateDrawRange :: "Curves \<Rightarrow> Curves" where
  "updateDrawRange s =
     (let visibleVertices = currentCurveCount s * int (verticesPerCurve s)
      in s\<lparr>drawRange := (0, visibleVertices)\<rparr>)"

definition computeGradientParams :: "CurveColor \<Rightarrow> CurveMetadata option \<Rightarrow> GradientParams option" where
  "computeGradientParams c md =
     (let source =
        (case c of
           GradientColor dlat dlng \<Rightarrow>
             Some (case dlat of None \<Rightarrow> 0 | Some v \<Rightarrow> v, case dlng of None \<Rightarrow> 0 | Some v \<Rightarrow> v)
         | _ \<Rightarrow> (case md of
                   Some m \<Rightarrow> (case md_departure m of Some d \<Rightarrow> Some d | None \<Rightarrow> None)
                 | None \<Rightarrow> None))
      in case source of
           None \<Rightarrow> None
         | Some (lat, lng) \<Rightarrow>
             (let h = js_rem (lng + 180) 360 / 360;
                  latFactor = min (\<bar>lat\<bar> / 90) 1;
                  sat = clamp (6 / 10 + 3 / 10 * (1 - latFactor)) 0 1
              in Some \<lparr>hue = h, saturation = sat, lightnessStart = 35 / 100,
                        lightnessEnd = 75 / 100\<rparr>))"

definition resolveSolidColor :: "Three \<Rightarrow> CurveColor \<Rightarrow> real \<times> real \<times> real" where
  "resolveSolidColor three c =
     (case c of
        ColorObject rgb \<Rightarrow> rgb
      | ColorNumber n \<Rightarrow> color_ofHex three n
      | GradientColor _ _ \<Rightarrow> color_ofHex three 0x4488ff)"

definition getColorForProgress :: "Three \<Rightarrow> GradientParams \<Rightarrow> real \<Rightarrow> real \<times> real \<times> real" where
  "getColorForProgress three params prog =
     (let clampedProgress = clamp prog 0 1;
          lightness = clamp (lightnessStart params
                        + (lightnessEnd params - lightnessStart params) * clampedProgress) 0 1
      in color_ofHSL three (hue params) (saturation params) lightness)"

text \<open>One iteration of the segment loop of \<^verbatim>\<open>_applyColorToCurve\<close>, on the colour buffer.\<close>

definition applyColor_step ::
  "Three \<Rightarrow> nat \<Rightarrow> nat \<Rightarrow> nat \<Rightarrow> GradientParams option \<Rightarrow> real \<times> real \<times> real
     \<Rightarrow> nat \<Rightarrow> real list \<Rightarrow> real list" where
  "applyColor_step three vertexOffset segs vps gradientParams solidColor segmentIndex cols =
     (let vertexIndex = vertexOffset + segmentIndex * vps;
          bufferIndex = vertexIndex * 3
      in case gradientParams of
           Some params \<Rightarrow>
             (case getColorForProgress three params (real segmentIndex / real segs) of
                (sr, sg, sb) \<Rightarrow>
                  (case getColorForProgress three params (real (segmentIndex + 1) / real segs) of
                     (er, eg, eb) \<Rightarrow>
                       cols[bufferIndex := sr, bufferIndex + 1 := sg, bufferIndex + 2 := sb,
                            bufferIndex + 3 := er, bufferIndex + 4 := eg, bufferIndex + 5 := eb]))
         | None \<Rightarrow>
             (case solidColor of
                (r, g, b) \<Rightarrow>
                  cols[bufferIndex := r, bufferIndex + 1 := g, bufferIndex + 2 := b,
                       bufferIndex + 3 := r, bufferIndex + 4 := g, bufferIndex + 5 := b]))"

definition applyColorToCurve :: "Three \<Rightarrow> int \<Rightarrow> Curves \<Rightarrow> Curves" where
  "applyColorToCurve three curveIndex s =
     (if curveIndex < 0 \<or> curveIndex \<ge> int (maxCurves s) then s
      else
        (let cd = curveData s ! nat curveIndex in
         if \<not> visible cd then s
         else
           (let gradientParams = computeGradientParams (color cd) (metadata cd);
                vertexOffset = nat curveIndex * verticesPerCurve s;
                solidColor = resolveSolidColor three (color cd)
            in s\<lparr>colors := fold (applyColor_step three vertexOffset (segmentsPerCurve s)
                                 (verticesPerSegment s) gradientParams solidColor)
                               [0..<segmentsPerCurve s] (colors s),
                  needsColorUpdate := True\<rparr>)))"

text \<open>
  One iteration of the segment loop of \<^verbatim>\<open>setCurve\<close>, on the position buffer, the
  arc-length buffer and the running \<^verbatim>\<open>distance\<close>.
\<close>

definition setCurve_step ::
  "Vector3 list \<Rightarrow> nat \<Rightarrow> nat \<Rightarrow> nat \<Rightarrow> real list \<times> real list \<times> real
     \<Rightarrow> real list \<times> real list \<times> real" where
  "setCurve_step points vertexOffset vps segmentIndex st =
     (case st of (pos, dists, distance) \<Rightarrow>
       (let startPoint = points ! segmentIndex;
            endPoint = points ! (segmentIndex + 1);
            vertexIndex = vertexOffset + segmentIndex * vps;
            bufferIndex = vertexIndex * 3;
            distance' = distance + distanceTo startPoint endPoint
        in (pos[bufferIndex := vx startPoint, bufferIndex + 1 := vy startPoint,
                bufferIndex + 2 := vz startPoint, bufferIndex + 3 := vx endPoint,
                bufferIndex + 4 := vy endPoint, bufferIndex + 5 := vz endPoint],
            dists[vertexIndex := distance, vertexIndex + 1 := distance'],
            distance')))"

definition setCurve ::
  "Three \<Rightarrow> int \<Rightarrow> Vector3 list \<Rightarrow> CurveColor \<Rightarrow> CurveMetadata option \<Rightarrow> Curves \<Rightarrow> Curves" where
  "setCurve three curveIndex cps c md s =
     (if curveIndex < 0 \<or> curveIndex \<ge> int (maxCurves s)
      then s\<lparr>curvesLog := curvesLog s @ [CurveIndexOutOfBounds curveIndex]\<rparr>
      else if length cps < 2
      then s\<lparr>curvesLog := curvesLog s @ [NeedTwoControlPoints]\<rparr>
      else
        (let i = nat curveIndex;
             s1 = s\<lparr>curveData := (curveData s)
                      [i := \<lparr>controlPoints = cps, color = c, visible = True, metadata = md\<rparr>]\<rparr>;
             points = curve_getPoints three cps (segmentsPerCurve s1);
             vertexOffset = i * verticesPerCurve s1
         in case fold (setCurve_step points vertexOffset (verticesPerSegment s1))
                   [0..<segmentsPerCurve s1] (positions s1, lineDistances s1, 0)
            of (pos, dists, distance) \<Rightarrow>
              (let s2 = applyColorToCurve three curveIndex
                          (s1\<lparr>positions := pos, lineDistances := dists\<rparr>);
                   s3 = s2\<lparr>needsPositionUpdate := True, needsLineDistanceUpdate := True\<rparr>
               in if curveIndex \<ge> currentCurveCount s3
                  then updateDrawRange (s3\<lparr>currentCurveCount := curveIndex + 1\<rparr>)
                  else s3)))"

definition setCurveColor ::
  "Three \<Rightarrow> int \<Rightarrow> CurveColor \<Rightarrow> CurveMetadata option option \<Rightarrow> Curves \<Rightarrow> Curves" where
  "setCurveColor three curveIndex c md s =
     (if curveIndex < 0 \<or> curveIndex \<ge> int (maxCurves s) then s
      else
        (let i = nat curveIndex; cd = curveData s ! i in
         if \<not> visible cd then s
         else
           (let cd1 = cd\<lparr>color := c\<rparr>;
                cd2 = (case md of None \<Rightarrow> cd1 | Some m \<Rightarrow> cd1\<lparr>metadata := m\<rparr>)
            in applyColorToCurve three curveIndex (s\<lparr>curveData := (curveData s)[i := cd2]\<rparr>))))"

definition hideCurve :: "int \<Rightarrow> Curves \<Rightarrow> Curves" where
  "hideCurve curveIndex s =
     (if curveIndex < 0 \<or> curveIndex \<ge> int (maxCurves s) then s
      else
        (let i = nat curveIndex;
             vertexOffset = i * verticesPerCurve s * 3;
             totalVertices = verticesPerCurve s * 3;
             distanceOffset = i * verticesPerCurve s
         in s\<lparr>curveData := (curveData s)[i := (curveData s ! i)\<lparr>visible := False\<rparr>],
               positions := fold (\<lambda>k pos. pos[vertexOffset + k := 0]) [0..<totalVertices]
                              (positions s),
               lineDistances := fold (\<lambda>k ds. ds[distanceOffset + k := 0])
                                  [0..<verticesPerCurve s] (lineDistances s),
               needsPositionUpdate := True, needsLineDistanceUpdate := True\<rparr>))"

definition setVisibleCurveCount :: "int \<Rightarrow> Curves \<Rightarrow> Curves" where
  "setVisibleCurveCount cnt s =
     updateDrawRange (s\<lparr>currentCurveCount := min cnt (int (maxCurves s))\<rparr>)"

definition isCurveVisible :: "int \<Rightarrow> Curves \<Rightarrow> bool" where
  "isCurveVisible curveIndex s =
     (if curveIndex < 0 \<or> curveIndex \<ge> int (maxCurves s) then False
      else visible (curveData s ! nat curveIndex))"

datatype CurveOp =
  SetCurve int "Vector3 list" CurveColor "CurveMetadata option"
  | HideCurve int
  | SetVisibleCurveCount int

fun applyCurveOp :: "Three \<Rightarrow> CurveOp \<Rightarrow> Curves \<Rightarrow> Curves" where
  "applyCurveOp three (SetCurve i cps c md) s = setCurve three i cps c md s"
| "applyCurveOp three (HideCurve i) s = hideCurve i s"
| "applyCurveOp three (SetVisibleCurveCount n) s = setVisibleCurveCount n s"

section \<open>FlightUtils: path generation\<close>

definition latLngToVector3 :: "real \<Rightarrow> real \<Rightarrow> real \<Rightarrow> Vector3" where
  "latLngToVector3 lat lng radius =
     (let phi = ((90 - lat) * pi) / 180;
          theta = ((- lng + 180) * pi) / 180;
          x = radius * sin phi * cos theta;
          y = radius * cos phi;
          z = radius * sin phi * sin theta;
          rotatedX = z;
          rotatedY = y;
          rotatedZ = - x
      in vec rotatedX rotatedY rotatedZ)"

definition cloneControlPoints :: "Vector3 list \<Rightarrow> Vector3 list" where
  "cloneControlPoints points = map (\<lambda>point. point) points"

definition ensureMinimumCurveAltitude :: "Vector3 list \<Rightarrow> real \<Rightarrow> real \<Rightarrow> Vector3 list" where
  "ensureMinimumCurveAltitude points radius minAltitude =
     (let safeRadius = radius + minAltitude
      in map (\<lambda>point.
            (let adjusted = point; len = vlength adjusted
             in if len > 0 \<and> len < safeRadius
                then multiplyScalar (normalize adjusted) safeRadius
                else adjusted)) points)"

definition normalizeControlPoints :: "Three \<Rightarrow> Vector3 list \<Rightarrow> real \<Rightarrow> real \<Rightarrow> Vector3 list" where
  "normalizeControlPoints three points radius minAltitude =
     (let sourcePoints = (if points \<noteq> [] then cloneControlPoints points else [])
      in if length sourcePoints = 4
         then ensureMinimumCurveAltitude sourcePoints radius minAltitude
         else if sourcePoints = [] then []
         else
           (let sampledPoints =
                  [curve_getPoint three sourcePoints 0,
                   curve_getPoint three sourcePoints (333 / 1000),
                   curve_getPoint three sourcePoints (666 / 1000),
                   curve_getPoint three sourcePoints 1]
            in ensureMinimumCurveAltitude sampledPoints radius minAltitude))"

record Geolocation =
  geo_lat :: real
  geo_lng :: real

record ParabolicOptions =
  opt_radius :: real
  opt_takeoffOffset :: real
  opt_minCurveAltitude :: real
  opt_minCruiseAltitude :: real
  opt_maxCruiseAltitude :: real

text \<open>
  The tangent direction at one end of the path: the path direction projected onto the
  plane perpendicular to the surface normal, with the fallback axes of the source.
  \<open>randomDir\<close> is the vector \<^verbatim>\<open>randomDirection()\<close> returns.
\<close>

definition tangentAt :: "Vector3 \<Rightarrow> Vector3 \<Rightarrow> Vector3 \<Rightarrow> Vector3" where
  "tangentAt randomDir here there =
     (let normal = normalize here;
          pathDir0 = vsub there here;
          pathDir = (if lengthSq pathDir0 < 1 / 1000000 then randomDir else pathDir0);
          tangent0 = vsub pathDir (multiplyScalar normal (vdot pathDir normal));
          tangent1 = (if lengthSq tangent0 < 1 / 1000000
                      then (let c = crossVectors normal (vec 0 1 0)
                            in if lengthSq c < 1 / 1000000 then vec 1 0 0 else c)
                      else tangent0)
      in normalize tangent1)"

definition generateParabolicControlPoints ::
  "Vector3 \<times> Vector3 \<Rightarrow> Geolocation \<Rightarrow> Geolocation \<Rightarrow> ParabolicOptions \<Rightarrow> Vector3 list" where
  "generateParabolicControlPoints randomDirs departure arrival options =
     (let radius = opt_radius options;
          takeoffOffset = opt_takeoffOffset options;
          minCurveAltitude = opt_minCurveAltitude options;
          minCruiseAltitude = opt_minCruiseAltitude options;
          maxCruiseAltitude = opt_maxCruiseAltitude options;
          surfaceOffset = max takeoffOffset minCurveAltitude;
          cruiseMin = max minCruiseAltitude (surfaceOffset + 5);
          origin = latLngToVector3 (geo_lat departure) (geo_lng departure) radius;
          destination = latLngToVector3 (geo_lat arrival) (geo_lng arrival) radius;
          startSurface = multiplyScalar (normalize origin) (radius + surfaceOffset);
          endSurface = multiplyScalar (normalize destination) (radius + surfaceOffset);
          distance = distanceTo startSurface endSurface;
          maxDistance = radius * pi;
          distanceRatio = min (distance / (maxDistance * (3 / 10))) 1;
          cruiseAltitude = cruiseMin + (maxCruiseAltitude - cruiseMin) * (distanceRatio powr (7 / 10));
          climbPoint1 = multiplyScalar (normalize (lerp startSurface endSurface (2 / 10)))
                          (radius + cruiseAltitude * (4 / 10));
          climbPoint2 = multiplyScalar (normalize (lerp startSurface endSurface (35 / 100)))
                          (radius + cruiseAltitude * (75 / 100));
          cruisePeak = multiplyScalar (normalize (lerp startSurface endSurface (5 / 10)))
                          (radius + cruiseAltitude * (85 / 100));
          descentPoint1 = multiplyScalar (normalize (lerp startSurface endSurface (65 / 100)))
                          (radius + cruiseAltitude * (75 / 100));
          descentPoint2 = multiplyScalar (normalize (lerp startSurface endSurface (8 / 10)))
                          (radius + cruiseAltitude * (4 / 10));
          tangentStart = tangentAt (fst randomDirs) startSurface endSurface;
          tangentDistance = radius * (8 / 100);
          surfaceLength = vlength startSurface;
          startTangentPoint =
            multiplyScalar
              (normalize (vadd startSurface (multiplyScalar tangentStart tangentDistance)))
              surfaceLength;
          tangentEnd = tangentAt (snd randomDirs) endSurface startSurface;
          endSurfaceLength = vlength endSurface;
          endTangentPoint =
            multiplyScalar
              (normalize (vadd endSurface (multiplyScalar tangentEnd tangentDistance)))
              endSurfaceLength;
          rawPoints = [startSurface, startTangentPoint, climbPoint1, climbPoint2,
                       cruisePeak, descentPoint1, descentPoint2, endTangentPoint,
                       endSurface]
      in ensureMinimumCurveAltitude rawPoints radius minCurveAltitude)"

section \<open>Flight: one path slot and one instance slot\<close>

text \<open>
  The fields of \<^verbatim>\<open>Flight\<close> that its animation methods read and write. The pane renderer
  a flight is bound to is the \<open>PlanesShader\<close> state passed along with it;
  \<open>hasMergedPanes\<close> says that \<^verbatim>\<open>mergedPanes\<close> is not null, \<open>hasCachedCurve\<close> that
  \<^verbatim>\<open>_cachedCurve\<close> is not null. The CPU-based renderer behind
  \<^verbatim>\<open>updatePaneOnCurve\<close> is not part of the repository's sources.
\<close>

record Flight =
  animationTime :: real
  curveIndex :: int
  paneIndex :: int
  animationSpeed :: real
  animationSpeedTarget :: real
  tiltMode :: TiltMode
  returnFlight :: bool
  isShaderBasedPanes :: bool
  hasMergedPanes :: bool
  hasCachedCurve :: bool

definition Flight_setAnimationSpeed ::
  "real \<Rightarrow> bool \<Rightarrow> Flight \<times> PlanesShader \<Rightarrow> Flight \<times> PlanesShader" where
  "Flight_setAnimationSpeed speed immediate w =
     (case w of (f, p) \<Rightarrow>
       (let f1 = f\<lparr>animationSpeedTarget := speed\<rparr>;
            p1 = (if isShaderBasedPanes f1 \<and> hasMergedPanes f1 \<and> paneIndex f1 \<ge> 0
                  then setAnimationSpeed (paneIndex f1) speed p else p);
            f2 = (if immediate then f1\<lparr>animationSpeed := speed\<rparr> else f1)
        in (f2, p1)))"

definition applyAnimationSpeedSmoothing ::
  "real \<Rightarrow> Flight \<times> PlanesShader \<Rightarrow> Flight \<times> PlanesShader" where
  "applyAnimationSpeedSmoothing deltaTime w =
     (case w of (f, p) \<Rightarrow>
       (let difference = animationSpeedTarget f - animationSpeed f in
        if \<bar>difference\<bar> < 1 / 100000
        then
          (let p1 = (if animationSpeed f \<noteq> animationSpeedTarget f \<and> isShaderBasedPanes f
                        \<and> hasMergedPanes f \<and> paneIndex f \<ge> 0
                     then setAnimationSpeed (paneIndex f) (animationSpeedTarget f) p else p)
           in (f\<lparr>animationSpeed := animationSpeedTarget f\<rparr>, p1))
        else
          (let factor = (if deltaTime \<noteq> 0 then min 1 (deltaTime * 6) else 1);
               f1 = f\<lparr>animationSpeed := animationSpeed f + difference * factor\<rparr>;
               f2 = (if \<bar>animationSpeedTarget f1 - animationSpeed f1\<bar> < 1 / 10000
                     then f1\<lparr>animationSpeed := animationSpeedTarget f1\<rparr> else f1);
               p1 = (if isShaderBasedPanes f2 \<and> hasMergedPanes f2 \<and> paneIndex f2 \<ge> 0
                     then setAnimationSpeed (paneIndex f2) (animationSpeed f2) p else p)
           in (f2, p1))))"

definition Flight_update :: "real \<Rightarrow> Flight \<times> PlanesShader \<Rightarrow> Flight \<times> PlanesShader" where
  "Flight_update deltaTime w =
     (case applyAnimationSpeedSmoothing deltaTime w of (f, p) \<Rightarrow>
        if isShaderBasedPanes f then (f, p)
        else if \<not> hasCachedCurve f \<or> \<not> hasMergedPanes f \<or> paneIndex f < 0 then (f, p)
        else (f\<lparr>animationTime := animationTime f + deltaTime * animationSpeed f\<rparr>, p))"


section \<open>Derived notions for the animator\<close>

text \<open>
  Readings of the packed animation buffer: the visible flag of instance \<open>i\<close> as the loops
  test it, and its position \<open>(time * speed + phase) mod 2\<close> in the round-trip cycle.
\<close>

definition paneVisible :: "real list \<Rightarrow> nat \<Rightarrow> bool" where
  "paneVisible params i = (\<not> params ! (i * 4 + 3) < 1 / 2)"

definition cycleOf :: "real \<Rightarrow> real list \<Rightarrow> nat \<Rightarrow> real" where
  "cycleOf t params i = wrapProgress (t * params ! (i * 4 + 1) + params ! (i * 4)) 2"

text \<open>
  What one pass of the reconciliation loop leaves in the phase and in the pending flag of
  an instance it visits, and whether the instance keeps return mode enabled.
\<close>

definition reconcile_phase :: "real \<Rightarrow> real list \<Rightarrow> nat list \<Rightarrow> nat \<Rightarrow> real" where
  "reconcile_phase t params pending i =
     (if paneVisible params i
      then (if pending ! i \<noteq> 0
            then (if cycleOf t params i \<le> 1 - epsilon
                  then wrapProgress (- t * params ! (i * 4 + 1)) 2 else params ! (i * 4))
            else (if cycleOf t params i > 1 + epsilon
                  then wrapProgress (params ! (i * 4) - 1) 2 else params ! (i * 4)))
      else params ! (i * 4))"

definition reconcile_pending :: "real \<Rightarrow> real list \<Rightarrow> nat list \<Rightarrow> nat \<Rightarrow> nat" where
  "reconcile_pending t params pending i =
     (if paneVisible params i \<and> pending ! i \<noteq> 0 \<and> cycleOf t params i \<le> 1 - epsilon
      then 0 else pending ! i)"

definition stillPending :: "real \<Rightarrow> real list \<Rightarrow> nat list \<Rightarrow> nat \<Rightarrow> bool" where
  "stillPending t params pending i =
     (paneVisible params i \<and> pending ! i \<noteq> 0 \<and> \<not> cycleOf t params i \<le> 1 - epsilon)"

text \<open>
  Loop invariant of the reconciliation loop after \<open>n\<close> iterations, over buffers for \<open>m\<close>
  instances: iteration \<open>i\<close> has touched the phase and the flag of instance \<open>i\<close> only.
\<close>

definition reconcile_inv ::
  "real \<Rightarrow> nat \<Rightarrow> real list \<Rightarrow> nat list \<Rightarrow> bool \<Rightarrow> nat
     \<Rightarrow> real list \<times> nat list \<times> bool \<times> bool \<Rightarrow> bool" where
  "reconcile_inv t m params pending a n st =
     (case st of (params', pending', a', u') \<Rightarrow>
        length params' = m * 4 \<and> length pending' = m \<and>
        (\<forall>i<m. params' ! (i * 4 + 1) = params ! (i * 4 + 1) \<and>
               params' ! (i * 4 + 2) = params ! (i * 4 + 2) \<and>
               params' ! (i * 4 + 3) = params ! (i * 4 + 3) \<and>
               params' ! (i * 4) = (if i < n then reconcile_phase t params pending i
                                     else params ! (i * 4)) \<and>
               pending' ! i = (if i < n then reconcile_pending t params pending i
                               else pending ! i)) \<and>
        a' = (a \<or> (\<exists>i<n. stillPending t params pending i)))"

text \<open>
  The buffers have the sizes the constructor allocates, and the active count is at most
  the capacity.
\<close>

definition wfPlanes :: "PlanesShader \<Rightarrow> bool" where
  "wfPlanes s =
     (length (controlPointsPack1 s) = maxPanes s * 4 \<and>
      length (controlPointsPack2 s) = maxPanes s * 4 \<and>
      length (controlPointsPack3 s) = maxPanes s * 4 \<and>
      length (instanceColors s) = maxPanes s * 3 \<and>
      length (instanceScales s) = maxPanes s \<and>
      length (instanceElevations s) = maxPanes s \<and>
      length (instanceUvTransforms s) = maxPanes s * 4 \<and>
      length (animationParams s) = maxPanes s * 4 \<and>
      length (pendingReturnCompletion s) = maxPanes s \<and>
      activePanes s \<le> int (maxPanes s))"

text \<open>
  The period of the animation and the progress of instance \<open>i\<close>, as
  \<open>setAnimationSpeed\<close> computes them.
\<close>

definition period :: "PlanesShader \<Rightarrow> real" where
  "period s = (if returnModeEnabled s then 2 else 1)"

definition progress :: "PlanesShader \<Rightarrow> nat \<Rightarrow> real" where
  "progress s i =
     wrapProgress (uniformTime s * animationParams s ! (i * 4 + 1) + animationParams s ! (i * 4))
       (period s)"

text \<open>
  What the loop of a disable request leaves in the phase and in the pending flag of an
  instance it visits, and the invariant of that loop.
\<close>

definition disable_phase :: "real \<Rightarrow> real list \<Rightarrow> nat \<Rightarrow> real" where
  "disable_phase t params i =
     (if paneVisible params i \<and> \<not> cycleOf t params i > 1 + epsilon
         \<and> cycleOf t params i > 1 - epsilon
      then wrapProgress (params ! (i * 4) - 1) 2 else params ! (i * 4))"

definition disable_pending :: "real \<Rightarrow> real list \<Rightarrow> nat list \<Rightarrow> nat \<Rightarrow> nat" where
  "disable_pending t params pending i =
     (if paneVisible params i then (if cycleOf t params i > 1 + epsilon then 1 else 0)
      else pending ! i)"

definition disable_inv ::
  "real \<Rightarrow> nat \<Rightarrow> real list \<Rightarrow> nat list \<Rightarrow> nat
     \<Rightarrow> real list \<times> nat list \<times> bool \<Rightarrow> bool" where
  "disable_inv t m params pending n st =
     (case st of (params', pending', u') \<Rightarrow>
        length params' = m * 4 \<and> length pending' = m \<and>
        (\<forall>i<m. params' ! (i * 4 + 1) = params ! (i * 4 + 1) \<and>
               params' ! (i * 4 + 2) = params ! (i * 4 + 2) \<and>
               params' ! (i * 4 + 3) = params ! (i * 4 + 3) \<and>
               params' ! (i * 4) = (if i < n then disable_phase t params i
                                     else params ! (i * 4)) \<and>
               pending' ! i = (if i < n then disable_pending t params pending i
                               else pending ! i)))"



text \<open>
  The invariant of the drain: after a disable request, return mode is enabled as long as
  an active and visible instance has its pending flag set.
\<close>

definition drainOk :: "PlanesShader \<Rightarrow> bool" where
  "drainOk s =
     (wfPlanes s \<and> \<not> returnModePreferred s \<and>
      (returnModeEnabled s \<or>
       \<not> (\<exists>i<nat (activePanes s). paneVisible (animationParams s) i
              \<and> pendingReturnCompletion s ! i \<noteq> 0)))"

text \<open>
  A concrete animator for the examples: capacity 1, round-trip mode, one visible active
  instance with speed 0.1 and phase 0, at global time 15; and the same after a disable
  request.
\<close>

definition demo_points :: "Vector3 list" where
  "demo_points = [vec 3020 0 0, vec 3050 300 0, vec 3050 600 0, vec 2950 900 0]"

definition demo_planes :: PlanesShader where
  "demo_planes =
     update 15 (setActivePaneCount 1 (setCurveControlPoints 0 demo_points
       (PlanesShader_new \<lparr>opt_maxPanes = Some 1, opt_baseSize = None,
           opt_returnMode = Some True, opt_baseElevation = None\<rparr> (\<lambda>i. 0))))"

definition demo_flagged :: PlanesShader where
  "demo_flagged = setReturnMode False demo_planes"

text \<open>
  A single slot without round-trip mode, set to speed 0.5 at time 0 (phase 0), and the
  same shader 10000 and 20 seconds later.
\<close>

definition steady_planes :: PlanesShader where
  "steady_planes =
     setAnimationSpeed 0 (1 / 2)
       (PlanesShader_new \<lparr>opt_maxPanes = Some 1, opt_baseSize = None,
           opt_returnMode = None, opt_baseElevation = None\<rparr> (\<lambda>i. 0))"

definition late_planes :: PlanesShader where
  "late_planes = update 10000 steady_planes"

definition seam_planes :: PlanesShader where
  "seam_planes = update 20 steady_planes"

section \<open>Derived notions for the path renderer, the path generator and the flight\<close>

text \<open>
  A stand-in for the library in the examples (nearest end point for the spline, grey
  levels for the colours), and a concrete path renderer with two slots of one segment
  each, whose slot 1 holds a path.
\<close>

definition demo_three :: Three where
  "demo_three = \<lparr>curve_getPoint = (\<lambda>ps t. if t < 1 / 2 then hd ps else last ps),
                  color_ofHex = (\<lambda>n. (0, 0, 0)),
                  color_ofHSL = (\<lambda>h s l. (l, l, l))\<rparr>"

definition demo_curves :: Curves where
  "demo_curves =
     setCurve demo_three 1 demo_points (ColorNumber 0x4488ff) None
       (Curves_new \<lparr>opt_maxCurves = Some 2, opt_segmentsPerCurve = Some 1,
                    opt_dashSize = None, opt_gapSize = None\<rparr>)"

text \<open>
  The draw range is the prefix given by the visible curve count, which is at most the
  capacity.
\<close>

definition drawRangeOk :: "Curves \<Rightarrow> bool" where
  "drawRangeOk s =
     (drawRange s = (0, currentCurveCount s * int (verticesPerCurve s))
      \<and> currentCurveCount s \<le> int (maxCurves s))"

text \<open>
  The projection as the specification words it: the standard spherical-to-Cartesian
  conversion, the axis remap \<open>(x, y, z) \<mapsto> (z, y, -x)\<close>, and the rotation about the
  vertical axis it stands for.
\<close>

definition sphericalToCartesian :: "real \<Rightarrow> real \<Rightarrow> real \<Rightarrow> Vector3" where
  "sphericalToCartesian r phi theta =
     vec (r * sin phi * cos theta) (r * cos phi) (r * sin phi * sin theta)"

definition axisRemap :: "Vector3 \<Rightarrow> Vector3" where
  "axisRemap v = vec (vz v) (vy v) (- vx v)"

definition rotateY :: "real \<Rightarrow> Vector3 \<Rightarrow> Vector3" where
  "rotateY a v = vec (vx v * cos a + vz v * sin a) (vy v) (- vx v * sin a + vz v * cos a)"

text \<open>
  The altitude floor on one point, as the body of the \<^verbatim>\<open>map\<close> in
  \<open>ensureMinimumCurveAltitude\<close> applies it.
\<close>

definition liftPoint :: "real \<Rightarrow> Vector3 \<Rightarrow> Vector3" where
  "liftPoint safeRadius p =
     (if 0 < vlength p \<and> vlength p < safeRadius
      then multiplyScalar (normalize p) safeRadius else p)"

text \<open>
  Options with a zero radius, and a concrete flight bound to slot 0 of the animator.
\<close>

definition zero_radius_options :: ParabolicOptions where
  "zero_radius_options = \<lparr>opt_radius = 0, opt_takeoffOffset = 18, opt_minCurveAltitude = 20,
     opt_minCruiseAltitude = 30, opt_maxCruiseAltitude = 220\<rparr>"

definition demo_flight :: Flight where
  "demo_flight = \<lparr>animationTime = 0, curveIndex = 0, paneIndex = 0, animationSpeed = 1 / 10,
     animationSpeedTarget = 1 / 10, tiltMode = Perpendicular, returnFlight = False,
     isShaderBasedPanes = True, hasMergedPanes = True, hasCachedCurve = True\<rparr>"

text \<open>
  The parabolic scenario: departure (37.6, -122.4), arrival (40.6, -73.8), radius 3000.
\<close>

definition scenario_departure :: Geolocation where
  "scenario_departure = \<lparr>geo_lat = 376 / 10, geo_lng = - 1224 / 10\<rparr>"

definition scenario_arrival :: Geolocation where
  "scenario_arrival = \<lparr>geo_lat = 406 / 10, geo_lng = - 738 / 10\<rparr>"

definition scenario_options :: ParabolicOptions where
  "scenario_options = \<lparr>opt_radius = 3000, opt_takeoffOffset = 18, opt_minCurveAltitude = 20,
     opt_minCruiseAltitude = 30, opt_maxCruiseAltitude = 220\<rparr>"

section \<open>Rounding to binary32\<close>

text \<open>
  The exponent found by \<open>float32_exponent\<close> brackets its argument between two powers of
  two (from below only down to the subnormal exponent), so rounding to the nearest
  multiple of the spacing moves a number by at most half the spacing: by at most
  \<open>pow2 (- 24)\<close> relative to a magnitude of at least \<open>pow2 (- 126)\<close>, and by at most
  \<open>pow2 (- 24)\<close> for a number in \<open>[0, 2)\<close>.
\<close>

lemma pow2_pos: "0 < pow2 e"
  by (simp add: pow2_def)

lemma pow2_Suc: "pow2 (e + 1) = 2 * pow2 e"
proof (cases "0 \<le> e")
  case True
  then have "nat (e + 1) = Suc (nat e)" by simp
  then show ?thesis using True by (simp add: pow2_def)
next
  case False
  then have n: "nat (- e) = Suc (nat (- (e + 1)))" by simp
  show ?thesis
  proof (cases "e = - 1")
    case True
    then show ?thesis by (simp add: pow2_def)
  next
    case False
    with \<open>\<not> 0 \<le> e\<close> have "\<not> 0 \<le> e + 1" by simp
    then show ?thesis using \<open>\<not> 0 \<le> e\<close> n by (simp add: pow2_def)
  qed
qed

lemma pow2_pred: "pow2 (e - 1) = pow2 e / 2"
  using pow2_Suc [of "e - 1"] by simp

lemma pow2_0: "pow2 0 = 1"
  by (simp add: pow2_def)

lemma pow2_add_nat: "pow2 (e + int n) = 2 ^ n * pow2 e"
proof (induction n)
  case 0
  then show ?case by simp
next
  case (Suc n)
  have "e + int (Suc n) = (e + int n) + 1" by simp
  then have "pow2 (e + int (Suc n)) = pow2 ((e + int n) + 1)" by (simp only:)
  also have "\<dots> = 2 * pow2 (e + int n)" by (rule pow2_Suc)
  finally show ?case using Suc by simp
qed

lemma pow2_mono: "a \<le> b \<Longrightarrow> pow2 a \<le> pow2 b"
proof -
  assume "a \<le> b"
  then obtain n where b: "b = a + int n" using zle_iff_zadd by blast
  have "(1::real) \<le> 2 ^ n" by simp
  then have "1 * pow2 a \<le> 2 ^ n * pow2 a"
    using pow2_pos [of a] by (intro mult_right_mono) auto
  then show ?thesis by (simp add: b pow2_add_nat)
qed

lemma pow2_less_imp: "pow2 a < pow2 b \<Longrightarrow> a < b"
  using pow2_mono [of b a] by (cases "a < b") auto

lemma exponent_up_bounds:
  "1 \<le> a \<Longrightarrow> e \<le> exponent_up a e \<and> pow2 (exponent_up a e - e) \<le> a
     \<and> a < pow2 (exponent_up a e - e + 1)"
proof (induction a e rule: exponent_up.induct)
  case (1 a e)
  show ?case
  proof (cases "2 \<le> a")
    case True
    then have r: "exponent_up a e = exponent_up (a / 2) (e + 1)"
      by (simp add: exponent_up.simps [of a e])
    have "1 \<le> a / 2" using True by simp
    from "1.IH" [OF True this]
    have ih: "e + 1 \<le> exponent_up a e" "pow2 (exponent_up a e - (e + 1)) \<le> a / 2"
      "a / 2 < pow2 (exponent_up a e - (e + 1) + 1)"
      by (simp_all add: r)
    have "pow2 (exponent_up a e - e) = 2 * pow2 (exponent_up a e - (e + 1))"
      using pow2_Suc [of "exponent_up a e - (e + 1)"] by simp
    moreover have "pow2 (exponent_up a e - e + 1) = 2 * pow2 (exponent_up a e - (e + 1) + 1)"
      using pow2_Suc [of "exponent_up a e - (e + 1) + 1"] by (simp add: algebra_simps)
    ultimately show ?thesis using ih by simp
  next
    case False
    then have r: "exponent_up a e = e" by (subst exponent_up.simps) auto
    show ?thesis using False "1.prems" by (simp add: r pow2_def)
  qed
qed

lemma exponent_down_bounds:
  "0 < a \<Longrightarrow> a < 2 \<Longrightarrow> - 126 \<le> e \<Longrightarrow>
     - 126 \<le> exponent_down a e \<and> exponent_down a e \<le> e
     \<and> a < pow2 (exponent_down a e - e + 1)
     \<and> (pow2 (exponent_down a e - e) \<le> a \<or> exponent_down a e = - 126)"
proof (induction a e rule: exponent_down.induct)
  case (1 a e)
  show ?case
  proof (cases "a < 1 \<and> - 126 < e")
    case True
    then have r: "exponent_down a e = exponent_down (a * 2) (e - 1)"
      by (simp add: exponent_down.simps [of a e])
    have "0 < a * 2" "a * 2 < 2" "- 126 \<le> e - 1" using True "1.prems" by simp_all
    from "1.IH" [OF True this]
    have ih: "- 126 \<le> exponent_down a e" "exponent_down a e \<le> e - 1"
      "a * 2 < pow2 (exponent_down a e - (e - 1) + 1)"
      "pow2 (exponent_down a e - (e - 1)) \<le> a * 2 \<or> exponent_down a e = - 126"
      by (simp_all add: r)
    have p1: "pow2 (exponent_down a e - (e - 1) + 1) = 2 * pow2 (exponent_down a e - e + 1)"
      using pow2_Suc [of "exponent_down a e - e + 1"] by (simp add: algebra_simps)
    have p2: "pow2 (exponent_down a e - (e - 1)) = 2 * pow2 (exponent_down a e - e)"
      using pow2_Suc [of "exponent_down a e - e"] by (simp add: algebra_simps)
    show ?thesis using ih unfolding p1 p2 by auto
  next
    case False
    then have r: "exponent_down a e = e" by (subst exponent_down.simps) auto
    show ?thesis using False "1.prems" by (auto simp: r pow2_def)
  qed
qed

lemma float32_exponent_bounds:
  assumes "0 < a"
  shows "- 126 \<le> float32_exponent a"
    and "a < pow2 (float32_exponent a + 1)"
    and "pow2 (float32_exponent a) \<le> a \<or> float32_exponent a = - 126"
proof -
  have "- 126 \<le> float32_exponent a \<and> a < pow2 (float32_exponent a + 1)
      \<and> (pow2 (float32_exponent a) \<le> a \<or> float32_exponent a = - 126)"
  proof (cases "1 \<le> a")
    case True
    from exponent_up_bounds [OF this, of 0] show ?thesis
      using True by (simp add: float32_exponent_def)
  next
    case False
    then have "a < 2" by simp
    from exponent_down_bounds [OF assms this, of 0] show ?thesis
      using False by (simp add: float32_exponent_def)
  qed
  then show "- 126 \<le> float32_exponent a"
    and "a < pow2 (float32_exponent a + 1)"
    and "pow2 (float32_exponent a) \<le> a \<or> float32_exponent a = - 126"
    by simp_all
qed

lemma round_half_even_error: "\<bar>of_int (round_half_even r) - r\<bar> \<le> 1 / 2"
proof -
  have "of_int \<lfloor>r\<rfloor> \<le> r" "r < of_int \<lfloor>r\<rfloor> + 1" by linarith+
  then show ?thesis by (auto simp: round_half_even_def Let_def)
qed

lemma float32_error:
  assumes "x \<noteq> 0"
  shows "\<bar>float32 x - x\<bar> \<le> pow2 (float32_exponent \<bar>x\<bar> - 24)"
proof -
  let ?a = "\<bar>x\<bar>"
  let ?q = "pow2 (float32_exponent ?a - 23)"
  let ?n = "round_half_even (?a / ?q)"
  have q: "0 < ?q" by (rule pow2_pos)
  have f: "float32 x = sgn x * (of_int ?n * ?q)"
    using assms by (simp add: float32_def Let_def)
  have x: "x = sgn x * ?a" by (simp add: sgn_mult_abs)
  have "float32 x - x = sgn x * (of_int ?n * ?q - ?a)"
    unfolding f using x by (simp add: algebra_simps)
  then have "\<bar>float32 x - x\<bar> = \<bar>of_int ?n * ?q - ?a\<bar>"
    using assms by (simp add: abs_mult sgn_if)
  also have "of_int ?n * ?q - ?a = (of_int ?n - ?a / ?q) * ?q"
    using q by (simp add: algebra_simps)
  also have "\<bar>(of_int ?n - ?a / ?q) * ?q\<bar> = \<bar>of_int ?n - ?a / ?q\<bar> * ?q"
    using q by (simp add: abs_mult)
  also have "\<dots> \<le> 1 / 2 * ?q"
    using q round_half_even_error [of "?a / ?q"] by (intro mult_right_mono) auto
  also have "\<dots> = pow2 (float32_exponent ?a - 24)"
    using pow2_pred [of "float32_exponent ?a - 23"] by simp
  finally show ?thesis .
qed

lemma float32_zero: "float32 0 = 0"
  by (simp add: float32_def)

lemma pow2_minus24: "pow2 (e - 24) = pow2 e * pow2 (- 24)"
proof -
  have "pow2 ((e - 24) + int 24) = 2 ^ 24 * pow2 (e - 24)" by (rule pow2_add_nat)
  then have "pow2 e = 2 ^ 24 * pow2 (e - 24)" by simp
  then show ?thesis by (simp add: pow2_def)
qed

lemma float32_relative_error:
  assumes "pow2 (- 126) \<le> \<bar>x\<bar>"
  shows "\<bar>float32 x - x\<bar> \<le> \<bar>x\<bar> * pow2 (- 24)"
proof -
  have x: "x \<noteq> 0" using assms pow2_pos [of "- 126"] by auto
  then have a: "0 < \<bar>x\<bar>" by simp
  have "pow2 (float32_exponent \<bar>x\<bar>) \<le> \<bar>x\<bar>"
    using float32_exponent_bounds(3) [OF a] assms by auto
  then have "pow2 (float32_exponent \<bar>x\<bar>) * pow2 (- 24) \<le> \<bar>x\<bar> * pow2 (- 24)"
    using pow2_pos [of "- 24"] by (intro mult_right_mono) auto
  then show ?thesis using float32_error [OF x] by (simp add: pow2_minus24)
qed

lemma float32_small_error:
  assumes "0 \<le> y" "y < 2"
  shows "\<bar>float32 y - y\<bar> \<le> pow2 (- 24)"
proof (cases "y = 0")
  case True
  then show ?thesis using pow2_pos [of "- 24"] by (simp add: float32_zero)
next
  case False
  then have a: "0 < \<bar>y\<bar>" "\<bar>y\<bar> = y" using assms by simp_all
  have "float32_exponent y \<le> 0"
  proof (cases "pow2 (float32_exponent y) \<le> y")
    case True
    then have "pow2 (float32_exponent y) < pow2 1" using assms by (simp add: pow2_def)
    then have "float32_exponent y < 1" by (rule pow2_less_imp)
    then show ?thesis by simp
  next
    case False
    then have "float32_exponent y = - 126"
      using float32_exponent_bounds(3) [OF a(1)] a(2) by simp
    then show ?thesis by simp
  qed
  then have "pow2 (float32_exponent y - 24) \<le> pow2 (- 24)"
    by (intro pow2_mono) simp
  then show ?thesis using float32_error [OF False] a(2) by simp
qed


lemma float32_error_max: "\<bar>float32 x - x\<bar> \<le> max \<bar>x\<bar> (pow2 (- 126)) * pow2 (- 24)"
proof (cases "x = 0")
  case True
  then show ?thesis using pow2_pos [of "- 126"] pow2_pos [of "- 24"] by (simp add: float32_zero)
next
  case False
  then have a: "0 < \<bar>x\<bar>" by simp
  have "pow2 (float32_exponent \<bar>x\<bar>) \<le> max \<bar>x\<bar> (pow2 (- 126))"
    using float32_exponent_bounds(3) [OF a] by auto
  then have "pow2 (float32_exponent \<bar>x\<bar>) * pow2 (- 24) \<le> max \<bar>x\<bar> (pow2 (- 126)) * pow2 (- 24)"
    using pow2_pos [of "- 24"] by (intro mult_right_mono) auto
  then show ?thesis using float32_error [OF False] by (simp add: pow2_minus24)
qed

lemma float32_eval:
  assumes "x \<noteq> 0" "float32_exponent \<bar>x\<bar> = e" "pow2 (e - 23) = q"
    "round_half_even (\<bar>x\<bar> / q) = n"
  shows "float32 x = sgn x * (of_int n * q)"
  using assms by (simp add: float32_def Let_def)

lemma float32_half: "float32 (1 / 2) = 1 / 2"
proof -
  have e: "float32_exponent \<bar>1 / 2\<bar> = - 1"
    by (simp add: float32_exponent_def exponent_down.simps)
  have q: "pow2 (- 1 - 23) = 1 / 16777216" by (simp add: pow2_def)
  have n: "round_half_even (\<bar>1 / 2\<bar> / (1 / 16777216)) = 8388608"
    by (simp add: round_half_even_def Let_def)
  show ?thesis using float32_eval [OF _ e q n] by simp
qed

lemma float32_quarter: "float32 (1 / 4) = 1 / 4"
proof -
  have e: "float32_exponent \<bar>1 / 4\<bar> = - 2"
    by (simp add: float32_exponent_def exponent_down.simps)
  have q: "pow2 (- 2 - 23) = 1 / 33554432" by (simp add: pow2_def)
  have n: "round_half_even (\<bar>1 / 4\<bar> / (1 / 33554432)) = 8388608"
    by (simp add: round_half_even_def Let_def)
  show ?thesis using float32_eval [OF _ e q n] by simp
qed

lemma float32_seven_quarters: "float32 (7 / 4) = 7 / 4"
proof -
  have e: "float32_exponent \<bar>7 / 4\<bar> = 0"
    by (simp add: float32_exponent_def exponent_up.simps)
  have q: "pow2 (0 - 23) = 1 / 8388608" by (simp add: pow2_def)
  have n: "round_half_even (\<bar>7 / 4\<bar> / (1 / 8388608)) = 14680064"
    by (simp add: round_half_even_def Let_def)
  show ?thesis using float32_eval [OF _ e q n] by simp
qed

lemma float32_three_tenths: "float32 (3 / 10) = 10066330 / 33554432"
proof -
  have e: "float32_exponent \<bar>3 / 10\<bar> = - 2"
    by (simp add: float32_exponent_def exponent_down.simps)
  have q: "pow2 (- 2 - 23) = 1 / 33554432" by (simp add: pow2_def)
  have n: "round_half_even (\<bar>3 / 10\<bar> / (1 / 33554432)) = 10066330"
    by (simp add: round_half_even_def Let_def)
  show ?thesis using float32_eval [OF _ e q n] by simp
qed

lemma float32_seven_tenths: "float32 (7 / 10) = 11744051 / 16777216"
proof -
  have e: "float32_exponent \<bar>7 / 10\<bar> = - 1"
    by (simp add: float32_exponent_def exponent_down.simps)
  have q: "pow2 (- 1 - 23) = 1 / 16777216" by (simp add: pow2_def)
  have n: "round_half_even (\<bar>7 / 10\<bar> / (1 / 16777216)) = 11744051"
    by (simp add: round_half_even_def Let_def)
  show ?thesis using float32_eval [OF _ e q n] by simp
qed

lemma float32_one: "float32 1 = 1"
proof -
  have e: "float32_exponent \<bar>1\<bar> = 0"
    by (simp add: float32_exponent_def exponent_up.simps)
  have q: "pow2 (0 - 23) = 1 / 8388608" by (simp add: pow2_def)
  have n: "round_half_even (\<bar>1\<bar> / (1 / 8388608)) = 8388608"
    by (simp add: round_half_even_def Let_def)
  show ?thesis using float32_eval [OF _ e q n] by simp
qed

section \<open>Properties of the animator\<close>

lemma js_rem_floor:
  assumes "0 < p"
  shows "(let r = js_rem v p in if r < 0 then r + p else r) = v - p * of_int \<lfloor>v / p\<rfloor>"
proof (cases "0 \<le> v / p")
  case True
  have "p * of_int \<lfloor>v / p\<rfloor> \<le> p * (v / p)"
    using assms by (intro mult_left_mono) auto
  then have "p * of_int \<lfloor>v / p\<rfloor> \<le> v" using assms by simp
  then show ?thesis using True by (simp add: js_rem_def js_trunc_def Let_def)
next
  case False
  show ?thesis
  proof (cases "of_int \<lfloor>v / p\<rfloor> = v / p")
    case True
    then have c: "\<lceil>v / p\<rceil> = \<lfloor>v / p\<rfloor>"
      by (metis ceiling_of_int)
    have "p * of_int \<lfloor>v / p\<rfloor> = p * (v / p)" by (simp only: True)
    then have "p * of_int \<lfloor>v / p\<rfloor> = v" using assms by simp
    then show ?thesis using False c by (simp add: js_rem_def js_trunc_def Let_def)
  next
    case nint: False
    then have c: "\<lceil>v / p\<rceil> = \<lfloor>v / p\<rfloor> + 1"
      by (simp add: ceiling_altdef)
    have le: "v / p \<le> of_int \<lceil>v / p\<rceil>" by (rule le_of_int_ceiling)
    have ne: "v / p \<noteq> of_int \<lceil>v / p\<rceil>" using nint c
      by (metis floor_of_int)
    have "v / p < of_int \<lceil>v / p\<rceil>" using le ne by (metis less_eq_real_def)
    then have "p * (v / p) < p * of_int \<lceil>v / p\<rceil>"
      using assms by (intro mult_strict_left_mono) auto
    then have "v < p * of_int \<lceil>v / p\<rceil>" using assms by simp
    then show ?thesis using False c by (simp add: js_rem_def js_trunc_def Let_def algebra_simps)
  qed
qed

lemma wrapProgress_floor: "0 < p \<Longrightarrow> wrapProgress v p = v - p * of_int \<lfloor>v / p\<rfloor>"
  using js_rem_floor [of p v] by (simp add: wrapProgress_def)

lemma wrapProgress_range:
  assumes "0 < p" shows "0 \<le> wrapProgress v p" and "wrapProgress v p < p"
proof -
  have "of_int \<lfloor>v / p\<rfloor> \<le> v / p" by simp
  then have "p * of_int \<lfloor>v / p\<rfloor> \<le> p * (v / p)" using assms by (intro mult_left_mono) auto
  then show "0 \<le> wrapProgress v p" using assms by (simp add: wrapProgress_floor)
  have "v / p < of_int \<lfloor>v / p\<rfloor> + 1" by linarith
  then have "p * (v / p) < p * (of_int \<lfloor>v / p\<rfloor> + 1)" using assms by (intro mult_strict_left_mono) auto
  then show "wrapProgress v p < p" using assms by (simp add: wrapProgress_floor algebra_simps)
qed

lemma wrapProgress_shift:
  assumes "0 < p" shows "wrapProgress (v + of_int k * p) p = wrapProgress v p"
proof -
  have "(v + of_int k * p) / p = v / p + of_int k" using assms by (simp add: field_simps)
  then have "\<lfloor>(v + of_int k * p) / p\<rfloor> = \<lfloor>v / p\<rfloor> + k" by simp
  then show ?thesis using assms by (simp add: wrapProgress_floor algebra_simps)
qed

lemma wrapProgress_id:
  assumes "0 \<le> v" "v < p" shows "wrapProgress v p = v"
proof -
  have p: "0 < p" using assms by simp
  have "0 \<le> v / p" "v / p < 1" using assms p by simp_all
  then have "\<lfloor>v / p\<rfloor> = 0" by linarith
  then show ?thesis using p by (simp add: wrapProgress_floor)
qed

lemma wrapProgress_rederive:
  assumes "0 < p"
  shows "wrapProgress (a + wrapProgress (wrapProgress c p - a) p) p = wrapProgress c p"
proof -
  let ?k = "\<lfloor>(wrapProgress c p - a) / p\<rfloor>"
  have "a + wrapProgress (wrapProgress c p - a) p = wrapProgress c p + of_int (- ?k) * p"
    using assms by (simp add: wrapProgress_floor [of p "wrapProgress c p - a"])
  then have "wrapProgress (a + wrapProgress (wrapProgress c p - a) p) p
      = wrapProgress (wrapProgress c p) p"
    using wrapProgress_shift [OF assms, of "wrapProgress c p" "- ?k"] by (simp only:)
  also have "\<dots> = wrapProgress c p"
    using wrapProgress_range [OF assms, of c] by (intro wrapProgress_id) auto
  finally show ?thesis .
qed

lemma reconcile_inv_step:
  assumes inv: "reconcile_inv t m params pending a n st" and n: "n < m"
  shows "reconcile_inv t m params pending a (Suc n) (reconcile_step t n st)"
proof -
  obtain p' q' a' u' where st: "st = (p', q', a', u')" by (cases st) auto
  from inv st have len: "length p' = m * 4" "length q' = m"
    and ent: "\<And>i. i < m \<Longrightarrow> p' ! (i * 4 + 1) = params ! (i * 4 + 1) \<and>
               p' ! (i * 4 + 2) = params ! (i * 4 + 2) \<and>
               p' ! (i * 4 + 3) = params ! (i * 4 + 3) \<and>
               p' ! (i * 4) = (if i < n then reconcile_phase t params pending i
                                     else params ! (i * 4)) \<and>
               q' ! i = (if i < n then reconcile_pending t params pending i
                               else pending ! i)"
    and a': "a' = (a \<or> (\<exists>i<n. stillPending t params pending i))"
    by (auto simp: reconcile_inv_def)
  have cur: "p' ! (n * 4 + 1) = params ! (n * 4 + 1)" "p' ! (n * 4 + 3) = params ! (n * 4 + 3)"
      "p' ! (n * 4) = params ! (n * 4)" "q' ! n = pending ! n"
    using ent [OF n] by auto
  have ex: "(\<exists>i<Suc n. stillPending t params pending i)
      = ((\<exists>i<n. stillPending t params pending i) \<or> stillPending t params pending n)"
    using less_Suc_eq by auto
  have idx: "n * 4 < length p'" "n < length q'" using len n by auto
  show ?thesis
    unfolding st reconcile_step_def reconcile_inv_def Let_def prod.case ex
    using len ent a' cur idx n
    by (auto simp: nth_list_update less_Suc_eq reconcile_phase_def reconcile_pending_def
        stillPending_def paneVisible_def cycleOf_def)
qed

lemma fold_upt_Suc: "fold f [0..<Suc n] s = f n (fold f [0..<n] s)"
  by simp

lemma reconcile_inv_fold:
  assumes "length params = m * 4" "length pending = m" "n \<le> m"
  shows "reconcile_inv t m params pending a n
           (fold (reconcile_step t) [0..<n] (params, pending, a, u))"
  using assms(3)
proof (induction n)
  case 0
  show ?case using assms(1,2) by (simp add: reconcile_inv_def)
next
  case (Suc n)
  then have "reconcile_inv t m params pending a n
           (fold (reconcile_step t) [0..<n] (params, pending, a, u))" and "n < m" by auto
  from reconcile_inv_step [OF this] show ?case by (simp only: fold_upt_Suc)
qed

lemma period_pos: "0 < period s" by (simp add: period_def)

lemma setAnimationSpeed_stored:
  assumes "0 \<le> index" "index < int (maxPanes s)" "length (animationParams s) = maxPanes s * 4"
  shows "animationParams (setAnimationSpeed index newSpeed s) ! (nat index * 4 + 1)
           = float32 newSpeed"
    and "animationParams (setAnimationSpeed index newSpeed s) ! (nat index * 4)
           = float32 (wrapProgress (progress s (nat index) - uniformTime s * newSpeed) (period s))"
    and "period (setAnimationSpeed index newSpeed s) = period s"
    and "uniformTime (setAnimationSpeed index newSpeed s) = uniformTime s"
proof -
  let ?i = "nat index"
  have i: "?i * 4 + 1 < length (animationParams s)" "?i * 4 < length (animationParams s)"
    using assms by auto
  show "period (setAnimationSpeed index newSpeed s) = period s"
    by (simp add: period_def setAnimationSpeed_def Let_def)
  show "uniformTime (setAnimationSpeed index newSpeed s) = uniformTime s"
    by (simp add: setAnimationSpeed_def Let_def)
  show "animationParams (setAnimationSpeed index newSpeed s) ! (?i * 4 + 1) = float32 newSpeed"
    using assms i by (simp add: setAnimationSpeed_def Let_def nth_list_update)
  show "animationParams (setAnimationSpeed index newSpeed s) ! (?i * 4)
           = float32 (wrapProgress (progress s ?i - uniformTime s * newSpeed) (period s))"
    using assms i
    by (simp add: setAnimationSpeed_def Let_def nth_list_update progress_def period_def
        getTimeUniform_def)
qed

lemma setAnimationSpeed_progress:
  assumes "0 \<le> index" "index < int (maxPanes s)" "length (animationParams s) = maxPanes s * 4"
  shows "progress (setAnimationSpeed index newSpeed s) (nat index)
           = wrapProgress (uniformTime s * float32 newSpeed
               + float32 (wrapProgress (progress s (nat index) - uniformTime s * newSpeed)
                   (period s))) (period s)"
  unfolding progress_def [of "setAnimationSpeed index newSpeed s"]
    setAnimationSpeed_stored [OF assms] ..

lemma setAnimationSpeed_drift:
  assumes "0 \<le> index" "index < int (maxPanes s)" "length (animationParams s) = maxPanes s * 4"
  shows "\<exists>k::int. progress (setAnimationSpeed index newSpeed s) (nat index)
             - progress s (nat index)
           = uniformTime s * (float32 newSpeed - newSpeed)
             + (float32 (wrapProgress (progress s (nat index) - uniformTime s * newSpeed)
                  (period s))
                - wrapProgress (progress s (nat index) - uniformTime s * newSpeed) (period s))
             + of_int k * period s"
proof -
  let ?P = "period s"
  let ?T = "uniformTime s"
  let ?c = "progress s (nat index)"
  let ?np = "wrapProgress (?c - ?T * newSpeed) ?P"
  let ?k1 = "\<lfloor>(?T * float32 newSpeed + float32 ?np) / ?P\<rfloor>"
  let ?k2 = "\<lfloor>(?c - ?T * newSpeed) / ?P\<rfloor>"
  have a: "progress (setAnimationSpeed index newSpeed s) (nat index)
      = ?T * float32 newSpeed + float32 ?np - ?P * of_int ?k1"
    unfolding setAnimationSpeed_progress [OF assms]
    by (rule wrapProgress_floor [OF period_pos])
  have b: "?np = ?c - ?T * newSpeed - ?P * of_int ?k2"
    by (rule wrapProgress_floor [OF period_pos])
  have "progress (setAnimationSpeed index newSpeed s) (nat index) - ?c
      = ?T * (float32 newSpeed - newSpeed) + (float32 ?np - ?np) + of_int (- ?k1 - ?k2) * ?P"
    unfolding a using b by (simp add: algebra_simps)
  then show ?thesis by (rule exI)
qed

lemma setAnimationSpeed_exact:
  assumes "0 \<le> index" "index < int (maxPanes s)" "length (animationParams s) = maxPanes s * 4"
    and "float32 newSpeed = newSpeed"
    and "float32 (wrapProgress (progress s (nat index) - uniformTime s * newSpeed) (period s))
           = wrapProgress (progress s (nat index) - uniformTime s * newSpeed) (period s)"
  shows "progress (setAnimationSpeed index newSpeed s) (nat index) = progress s (nat index)"
  unfolding setAnimationSpeed_progress [OF assms(1-3)] assms(4,5)
  unfolding progress_def [of s]
  by (rule wrapProgress_rederive [OF period_pos])

lemma period_le_2: "period s \<le> 2" by (simp add: period_def)

lemma setAnimationSpeed_rounding:
  assumes "0 \<le> index" "index < int (maxPanes s)" "length (animationParams s) = maxPanes s * 4"
    and "\<bar>uniformTime s\<bar> \<le> 1000000" "\<bar>uniformTime s * newSpeed\<bar> \<le> 1000"
  shows "\<bar>uniformTime s * (float32 newSpeed - newSpeed)
             + (float32 (wrapProgress (progress s (nat index) - uniformTime s * newSpeed)
                  (period s))
                - wrapProgress (progress s (nat index) - uniformTime s * newSpeed) (period s))\<bar>
           < 1 / 10000"
proof -
  let ?T = "uniformTime s"
  let ?np = "wrapProgress (progress s (nat index) - ?T * newSpeed) (period s)"
  have p24: "pow2 (- 24) = 1 / 16777216" by (simp add: pow2_def)
  have "0 \<le> ?np" "?np < period s" by (rule wrapProgress_range [OF period_pos])+
  then have "0 \<le> ?np" "?np < 2" using period_le_2 [of s] by simp_all
  then have e2: "\<bar>float32 ?np - ?np\<bar> \<le> 1 / 16777216"
    using float32_small_error [of ?np] by (simp only: p24)
  have "\<bar>?T * (float32 newSpeed - newSpeed)\<bar> = \<bar>?T\<bar> * \<bar>float32 newSpeed - newSpeed\<bar>"
    by (rule abs_mult)
  also have "\<dots> \<le> \<bar>?T\<bar> * (max \<bar>newSpeed\<bar> (pow2 (- 126)) * pow2 (- 24))"
    by (intro mult_left_mono float32_error_max) simp
  also have "\<dots> = max (\<bar>?T\<bar> * \<bar>newSpeed\<bar>) (\<bar>?T\<bar> * pow2 (- 126)) * pow2 (- 24)"
    by (simp add: max_mult_distrib_left mult.assoc)
  also have "\<dots> \<le> 1000 * pow2 (- 24)"
  proof (intro mult_right_mono)
    have "\<bar>?T\<bar> * pow2 (- 126) \<le> 1000000 * pow2 (- 126)"
      using assms(4) pow2_pos [of "- 126"] by (intro mult_right_mono) auto
    also have "\<dots> \<le> 1000" by (simp add: pow2_def)
    finally have "\<bar>?T\<bar> * pow2 (- 126) \<le> 1000" .
    moreover have "\<bar>?T\<bar> * \<bar>newSpeed\<bar> \<le> 1000" using assms(5) by (simp add: abs_mult)
    ultimately show "max (\<bar>?T\<bar> * \<bar>newSpeed\<bar>) (\<bar>?T\<bar> * pow2 (- 126)) \<le> 1000" by simp
    show "0 \<le> pow2 (- 24)" using pow2_pos [of "- 24"] by simp
  qed
  finally have e1: "\<bar>?T * (float32 newSpeed - newSpeed)\<bar> \<le> 1000 / 16777216"
    unfolding p24 by simp
  show ?thesis using e1 e2 by linarith
qed

lemma setAnimationSpeed_close:
  assumes "0 \<le> index" "index < int (maxPanes s)" "length (animationParams s) = maxPanes s * 4"
    and "\<bar>uniformTime s\<bar> \<le> 1000000" "\<bar>uniformTime s * newSpeed\<bar> \<le> 1000"
  shows "\<exists>k::int. \<bar>progress (setAnimationSpeed index newSpeed s) (nat index)
             - progress s (nat index) - of_int k * period s\<bar> < 1 / 10000"
proof -
  from setAnimationSpeed_drift [OF assms(1-3), of newSpeed] obtain k :: int where
    "progress (setAnimationSpeed index newSpeed s) (nat index) - progress s (nat index)
       = uniformTime s * (float32 newSpeed - newSpeed)
         + (float32 (wrapProgress (progress s (nat index) - uniformTime s * newSpeed)
              (period s))
            - wrapProgress (progress s (nat index) - uniformTime s * newSpeed) (period s))
         + of_int k * period s" ..
  then have "\<bar>progress (setAnimationSpeed index newSpeed s) (nat index)
             - progress s (nat index) - of_int k * period s\<bar> < 1 / 10000"
    using setAnimationSpeed_rounding [OF assms] by simp
  then show ?thesis by (rule exI)
qed

lemma setAnimationSpeed_away_from_seam:
  assumes "0 \<le> index" "index < int (maxPanes s)" "length (animationParams s) = maxPanes s * 4"
    and "\<bar>uniformTime s\<bar> \<le> 1000000" "\<bar>uniformTime s * newSpeed\<bar> \<le> 1000"
    and "1 / 10000 \<le> progress s (nat index)" "progress s (nat index) \<le> period s - 1 / 10000"
  shows "\<bar>progress (setAnimationSpeed index newSpeed s) (nat index)
             - progress s (nat index)\<bar> < 1 / 10000"
proof -
  let ?a = "progress (setAnimationSpeed index newSpeed s) (nat index)"
  let ?b = "progress s (nat index)"
  let ?P = "period s"
  from setAnimationSpeed_close [OF assms(1-5)] obtain k :: int where
    k: "\<bar>?a - ?b - of_int k * ?P\<bar> < 1 / 10000" ..
  have r: "0 \<le> ?a" "?a < ?P"
    unfolding setAnimationSpeed_progress [OF assms(1-3)]
    by (rule wrapProgress_range [OF period_pos])+
  have P: "0 < ?P" by (rule period_pos)
  have "k = 0"
  proof (rule ccontr)
    assume "k \<noteq> 0"
    then consider "1 \<le> k" | "k \<le> - 1" by linarith
    then show False
    proof cases
      case 1
      then have "(1::real) \<le> of_int k" by simp
      then have "1 * ?P \<le> of_int k * ?P" using P by (intro mult_right_mono) auto
      then show False using k r assms(6,7) by linarith
    next
      case 2
      then have "of_int k \<le> (- 1::real)" by (metis of_int_le_iff of_int_minus of_int_1)
      then have "of_int k * ?P \<le> (- 1) * ?P" using P by (intro mult_right_mono) auto
      then show False using k r assms(6,7) by linarith
    qed
  qed
  then show ?thesis using k by simp
qed

text \<open>
  Claim C2 (speed-change continuity), as amended. For an in-range slot and a new speed
  within the range of binary32, \<open>setAnimationSpeed\<close> stores the new speed and the phase
  \<open>(currentProgress - T * newSpeed) mod period\<close>, each rounded to binary32 by the
  \<^verbatim>\<open>Float32Array\<close>. The progress \<open>(T * speed + phase) mod period\<close> read immediately after
  the call and the progress read immediately before it differ, up to a whole number of
  periods, by the two rounding errors, \<open>T * (float32 newSpeed - newSpeed)\<close> and that of
  the phase. So they are equal when the new speed and the new phase are binary32
  numbers; they differ by less than \<open>1e-4\<close>, up to a whole number of periods, when
  \<open>\<bar>T\<bar> \<le> 1e6\<close> and \<open>\<bar>T * newSpeed\<bar> \<le> 1000\<close>; and under that bound they differ by less
  than \<open>1e-4\<close> outright when the progress before the call is at least \<open>1e-4\<close> away from
  both ends of the period. The period is 2 in round-trip mode and 1 otherwise.
\<close>

theorem speed_change_continuity:
  assumes "0 \<le> index" "index < int (maxPanes s)" "length (animationParams s) = maxPanes s * 4"
    and "\<bar>newSpeed\<bar> \<le> pow2 127"
  shows "animationParams (setAnimationSpeed index newSpeed s) ! (nat index * 4 + 1)
           = float32 newSpeed
         \<and> animationParams (setAnimationSpeed index newSpeed s) ! (nat index * 4)
             = float32 (wrapProgress (progress s (nat index) - uniformTime s * newSpeed)
                 (period s))
         \<and> (\<exists>k::int. progress (setAnimationSpeed index newSpeed s) (nat index)
                 - progress s (nat index)
               = uniformTime s * (float32 newSpeed - newSpeed)
                 + (float32 (wrapProgress (progress s (nat index) - uniformTime s * newSpeed)
                      (period s))
                    - wrapProgress (progress s (nat index) - uniformTime s * newSpeed)
                        (period s))
                 + of_int k * period s)
         \<and> (float32 newSpeed = newSpeed
              \<and> float32 (wrapProgress (progress s (nat index) - uniformTime s * newSpeed)
                    (period s))
                  = wrapProgress (progress s (nat index) - uniformTime s * newSpeed) (period s)
              \<longrightarrow> progress (setAnimationSpeed index newSpeed s) (nat index)
                    = progress s (nat index))
         \<and> (\<bar>uniformTime s\<bar> \<le> 1000000 \<and> \<bar>uniformTime s * newSpeed\<bar> \<le> 1000
              \<longrightarrow> (\<exists>k::int. \<bar>progress (setAnimationSpeed index newSpeed s) (nat index)
                      - progress s (nat index) - of_int k * period s\<bar> < 1 / 10000))
         \<and> (\<bar>uniformTime s\<bar> \<le> 1000000 \<and> \<bar>uniformTime s * newSpeed\<bar> \<le> 1000
              \<and> 1 / 10000 \<le> progress s (nat index)
              \<and> progress s (nat index) \<le> period s - 1 / 10000
              \<longrightarrow> \<bar>progress (setAnimationSpeed index newSpeed s) (nat index)
                      - progress s (nat index)\<bar> < 1 / 10000)"
  using setAnimationSpeed_stored(1,2) [OF assms(1-3), of newSpeed]
    setAnimationSpeed_drift [OF assms(1-3), of newSpeed]
    setAnimationSpeed_exact [OF assms(1-3), of newSpeed]
    setAnimationSpeed_close [OF assms(1-3), of newSpeed]
    setAnimationSpeed_away_from_seam [OF assms(1-3), of newSpeed]
  by (intro conjI impI) (simp_all only:)

lemma disable_inv_step:
  assumes inv: "disable_inv t m params pending n st" and n: "n < m"
  shows "disable_inv t m params pending (Suc n) (setReturnMode_step t n st)"
proof -
  obtain p' q' u' where st: "st = (p', q', u')" by (cases st) auto
  from inv st have len: "length p' = m * 4" "length q' = m"
    and ent: "\<And>i. i < m \<Longrightarrow> p' ! (i * 4 + 1) = params ! (i * 4 + 1) \<and>
               p' ! (i * 4 + 2) = params ! (i * 4 + 2) \<and>
               p' ! (i * 4 + 3) = params ! (i * 4 + 3) \<and>
               p' ! (i * 4) = (if i < n then disable_phase t params i
                                     else params ! (i * 4)) \<and>
               q' ! i = (if i < n then disable_pending t params pending i
                               else pending ! i)"
    by (auto simp: disable_inv_def)
  have cur: "p' ! (n * 4 + 1) = params ! (n * 4 + 1)" "p' ! (n * 4 + 3) = params ! (n * 4 + 3)"
      "p' ! (n * 4) = params ! (n * 4)" "q' ! n = pending ! n"
    using ent [OF n] by auto
  have idx: "n * 4 < length p'" "n < length q'" using len n by auto
  show ?thesis
    unfolding st setReturnMode_step_def disable_inv_def Let_def prod.case
    using len ent cur idx n
    by (auto simp: nth_list_update less_Suc_eq disable_phase_def disable_pending_def
        paneVisible_def cycleOf_def)
qed

lemma disable_inv_fold:
  assumes "length params = m * 4" "length pending = m" "n \<le> m"
  shows "disable_inv t m params pending n
           (fold (setReturnMode_step t) [0..<n] (params, pending, u))"
  using assms(3)
proof (induction n)
  case 0
  show ?case using assms(1,2) by (simp add: disable_inv_def)
next
  case (Suc n)
  then have "disable_inv t m params pending n
           (fold (setReturnMode_step t) [0..<n] (params, pending, u))" and "n < m" by auto
  from disable_inv_step [OF this] show ?case by (simp only: fold_upt_Suc)
qed

lemma nat_active_le: "wfPlanes s \<Longrightarrow> nat (activePanes s) \<le> maxPanes s"
  by (auto simp: wfPlanes_def)

lemma reconcile_drain:
  assumes wf: "wfPlanes s" and en: "returnModeEnabled s" and pr: "\<not> returnModePreferred s"
  shows "wfPlanes (reconcileReturnMode s)"
    and "returnModeEnabled (reconcileReturnMode s)
           = (\<exists>i<nat (activePanes s). stillPending (uniformTime s) (animationParams s)
                  (pendingReturnCompletion s) i)"
    and "\<forall>i<maxPanes s.
           animationParams (reconcileReturnMode s) ! (i * 4 + 1) = animationParams s ! (i * 4 + 1) \<and>
           animationParams (reconcileReturnMode s) ! (i * 4 + 2) = animationParams s ! (i * 4 + 2) \<and>
           animationParams (reconcileReturnMode s) ! (i * 4 + 3) = animationParams s ! (i * 4 + 3) \<and>
           animationParams (reconcileReturnMode s) ! (i * 4)
             = (if i < nat (activePanes s)
                then reconcile_phase (uniformTime s) (animationParams s) (pendingReturnCompletion s) i
                else animationParams s ! (i * 4)) \<and>
           pendingReturnCompletion (reconcileReturnMode s) ! i
             = (if i < nat (activePanes s)
                then reconcile_pending (uniformTime s) (animationParams s) (pendingReturnCompletion s) i
                else pendingReturnCompletion s ! i)"
    and "activePanes (reconcileReturnMode s) = activePanes s"
    and "maxPanes (reconcileReturnMode s) = maxPanes s"
    and "uniformTime (reconcileReturnMode s) = uniformTime s"
    and "returnModePreferred (reconcileReturnMode s) = returnModePreferred s"
proof -
  let ?F = "fold (reconcile_step (uniformTime s)) [0..<nat (activePanes s)]
                (animationParams s, pendingReturnCompletion s, False, False)"
  obtain p' q' a' u' where F: "?F = (p', q', a', u')" by (cases ?F) auto
  have "reconcile_inv (uniformTime s) (maxPanes s) (animationParams s) (pendingReturnCompletion s)
          False (nat (activePanes s)) ?F"
    using wf by (intro reconcile_inv_fold nat_active_le) (auto simp: wfPlanes_def)
  then have inv: "reconcile_inv (uniformTime s) (maxPanes s) (animationParams s)
      (pendingReturnCompletion s) False (nat (activePanes s)) (p', q', a', u')"
    by (simp only: F)
  have R: "reconcileReturnMode s =
     (let s1 = s\<lparr>animationParams := p', pendingReturnCompletion := q',
                  paneNeedsUpdate := (if u' then insert AttrAnimationParams (paneNeedsUpdate s)
                                      else paneNeedsUpdate s)\<rparr>
      in if \<not> a' then s1\<lparr>returnModeEnabled := False, uniformReturnMode := 0\<rparr> else s1)"
    using en pr F by (simp add: reconcileReturnMode_def getTimeUniform_def)
  show "wfPlanes (reconcileReturnMode s)"
    using wf inv by (simp add: R Let_def wfPlanes_def reconcile_inv_def)
  show "returnModeEnabled (reconcileReturnMode s)
           = (\<exists>i<nat (activePanes s). stillPending (uniformTime s) (animationParams s)
                  (pendingReturnCompletion s) i)"
    using en inv by (simp add: R Let_def reconcile_inv_def)
  show "\<forall>i<maxPanes s.
           animationParams (reconcileReturnMode s) ! (i * 4 + 1) = animationParams s ! (i * 4 + 1) \<and>
           animationParams (reconcileReturnMode s) ! (i * 4 + 2) = animationParams s ! (i * 4 + 2) \<and>
           animationParams (reconcileReturnMode s) ! (i * 4 + 3) = animationParams s ! (i * 4 + 3) \<and>
           animationParams (reconcileReturnMode s) ! (i * 4)
             = (if i < nat (activePanes s)
                then reconcile_phase (uniformTime s) (animationParams s) (pendingReturnCompletion s) i
                else animationParams s ! (i * 4)) \<and>
           pendingReturnCompletion (reconcileReturnMode s) ! i
             = (if i < nat (activePanes s)
                then reconcile_pending (uniformTime s) (animationParams s) (pendingReturnCompletion s) i
                else pendingReturnCompletion s ! i)"
    using inv by (simp add: R Let_def reconcile_inv_def)
  show "activePanes (reconcileReturnMode s) = activePanes s"
    "maxPanes (reconcileReturnMode s) = maxPanes s"
    "uniformTime (reconcileReturnMode s) = uniformTime s"
    "returnModePreferred (reconcileReturnMode s) = returnModePreferred s"
    by (simp_all add: R Let_def)
qed

lemma wfPlanes_time: "wfPlanes (s\<lparr>uniformTime := t\<rparr>) = wfPlanes s"
  by (simp add: wfPlanes_def)

lemma update_drain:
  assumes wf: "wfPlanes s" and en: "returnModeEnabled s" and pr: "\<not> returnModePreferred s"
  shows "wfPlanes (update dt s)"
    and "returnModeEnabled (update dt s)
           = (\<exists>i<nat (activePanes s). stillPending (uniformTime s + dt) (animationParams s)
                  (pendingReturnCompletion s) i)"
    and "\<forall>i<maxPanes s.
           animationParams (update dt s) ! (i * 4 + 1) = animationParams s ! (i * 4 + 1) \<and>
           animationParams (update dt s) ! (i * 4 + 2) = animationParams s ! (i * 4 + 2) \<and>
           animationParams (update dt s) ! (i * 4 + 3) = animationParams s ! (i * 4 + 3) \<and>
           animationParams (update dt s) ! (i * 4)
             = (if i < nat (activePanes s)
                then reconcile_phase (uniformTime s + dt) (animationParams s) (pendingReturnCompletion s) i
                else animationParams s ! (i * 4)) \<and>
           pendingReturnCompletion (update dt s) ! i
             = (if i < nat (activePanes s)
                then reconcile_pending (uniformTime s + dt) (animationParams s) (pendingReturnCompletion s) i
                else pendingReturnCompletion s ! i)"
    and "activePanes (update dt s) = activePanes s"
    and "maxPanes (update dt s) = maxPanes s"
    and "uniformTime (update dt s) = uniformTime s + dt"
    and "returnModePreferred (update dt s) = returnModePreferred s"
proof -
  let ?s = "s\<lparr>uniformTime := uniformTime s + dt\<rparr>"
  have w: "wfPlanes ?s" using wf by (simp add: wfPlanes_time)
  have e: "returnModeEnabled ?s" using en by simp
  have p: "\<not> returnModePreferred ?s" using pr by simp
  note r = reconcile_drain [OF w e p]
  show "wfPlanes (update dt s)" using r(1) by (simp add: update_def)
  show "returnModeEnabled (update dt s)
           = (\<exists>i<nat (activePanes s). stillPending (uniformTime s + dt) (animationParams s)
                  (pendingReturnCompletion s) i)"
    using r(2) by (simp add: update_def)
  show "\<forall>i<maxPanes s.
           animationParams (update dt s) ! (i * 4 + 1) = animationParams s ! (i * 4 + 1) \<and>
           animationParams (update dt s) ! (i * 4 + 2) = animationParams s ! (i * 4 + 2) \<and>
           animationParams (update dt s) ! (i * 4 + 3) = animationParams s ! (i * 4 + 3) \<and>
           animationParams (update dt s) ! (i * 4)
             = (if i < nat (activePanes s)
                then reconcile_phase (uniformTime s + dt) (animationParams s) (pendingReturnCompletion s) i
                else animationParams s ! (i * 4)) \<and>
           pendingReturnCompletion (update dt s) ! i
             = (if i < nat (activePanes s)
                then reconcile_pending (uniformTime s + dt) (animationParams s) (pendingReturnCompletion s) i
                else pendingReturnCompletion s ! i)"
    using r(3) by (simp add: update_def)
  show "activePanes (update dt s) = activePanes s" using r(4) by (simp add: update_def)
  show "maxPanes (update dt s) = maxPanes s" using r(5) by (simp add: update_def)
  show "uniformTime (update dt s) = uniformTime s + dt" using r(6) by (simp add: update_def)
  show "returnModePreferred (update dt s) = returnModePreferred s" using r(7) by (simp add: update_def)
qed

lemma epsilon_pos: "0 < epsilon" by (simp add: epsilon_def)

lemma drain_update_step:
  assumes wf: "wfPlanes s" and en: "returnModeEnabled s" and pr: "\<not> returnModePreferred s"
  shows "(returnModeEnabled (update dt s)
            = (\<exists>i<nat (activePanes s). paneVisible (animationParams (update dt s)) i
                   \<and> pendingReturnCompletion (update dt s) ! i \<noteq> 0))
       \<and> (\<forall>i<maxPanes s. paneVisible (animationParams (update dt s)) i
               = paneVisible (animationParams s) i)
       \<and> (\<forall>i<maxPanes s. pendingReturnCompletion s ! i \<noteq> 0
             \<longrightarrow> (pendingReturnCompletion (update dt s) ! i = 0)
                 = (i < nat (activePanes s) \<and> paneVisible (animationParams s) i
                    \<and> cycleOf (uniformTime s + dt) (animationParams s) i \<le> 1 - epsilon))
       \<and> (\<forall>i<maxPanes s. pendingReturnCompletion s ! i \<noteq> 0
               \<and> pendingReturnCompletion (update dt s) ! i = 0
             \<longrightarrow> 0 \<le> cycleOf (uniformTime s + dt) (animationParams s) i
                 \<and> cycleOf (uniformTime s + dt) (animationParams s) i < 1
                 \<and> animationParams (update dt s) ! (i * 4)
                     = wrapProgress (- (uniformTime s + dt) * animationParams s ! (i * 4 + 1)) 2)
       \<and> (\<forall>i<maxPanes s. pendingReturnCompletion s ! i \<noteq> 0
               \<and> 1 - epsilon < cycleOf (uniformTime s + dt) (animationParams s) i
             \<longrightarrow> animationParams (update dt s) ! (i * 4) = animationParams s ! (i * 4)
                 \<and> pendingReturnCompletion (update dt s) ! i = pendingReturnCompletion s ! i)"
proof -
  note u = update_drain [OF wf en pr, of dt]
  have n: "nat (activePanes s) \<le> maxPanes s" using wf by (rule nat_active_le)
  have ent: "\<And>i. i < maxPanes s \<Longrightarrow>
           animationParams (update dt s) ! (i * 4 + 3) = animationParams s ! (i * 4 + 3) \<and>
           animationParams (update dt s) ! (i * 4)
             = (if i < nat (activePanes s)
                then reconcile_phase (uniformTime s + dt) (animationParams s) (pendingReturnCompletion s) i
                else animationParams s ! (i * 4)) \<and>
           pendingReturnCompletion (update dt s) ! i
             = (if i < nat (activePanes s)
                then reconcile_pending (uniformTime s + dt) (animationParams s) (pendingReturnCompletion s) i
                else pendingReturnCompletion s ! i)"
    using u(3) by blast
  have a: "returnModeEnabled (update dt s)
            = (\<exists>i<nat (activePanes s). paneVisible (animationParams (update dt s)) i
                   \<and> pendingReturnCompletion (update dt s) ! i \<noteq> 0)"
  proof -
    have "\<And>i. i < nat (activePanes s) \<Longrightarrow>
        stillPending (uniformTime s + dt) (animationParams s) (pendingReturnCompletion s) i
        = (paneVisible (animationParams (update dt s)) i
             \<and> pendingReturnCompletion (update dt s) ! i \<noteq> 0)"
    proof -
      fix i assume i: "i < nat (activePanes s)"
      then have "i < maxPanes s" using n by simp
      from ent [OF this] i show "stillPending (uniformTime s + dt) (animationParams s) (pendingReturnCompletion s) i
        = (paneVisible (animationParams (update dt s)) i
             \<and> pendingReturnCompletion (update dt s) ! i \<noteq> 0)"
        by (auto simp: stillPending_def paneVisible_def reconcile_pending_def)
    qed
    then show ?thesis unfolding u(2) by auto
  qed
  have v: "\<forall>i<maxPanes s. paneVisible (animationParams (update dt s)) i
               = paneVisible (animationParams s) i"
    using ent by (simp add: paneVisible_def)
  have b1: "\<forall>i<maxPanes s. pendingReturnCompletion s ! i \<noteq> 0
             \<longrightarrow> (pendingReturnCompletion (update dt s) ! i = 0)
                 = (i < nat (activePanes s) \<and> paneVisible (animationParams s) i
                    \<and> cycleOf (uniformTime s + dt) (animationParams s) i \<le> 1 - epsilon)"
  proof (intro allI impI)
    fix i assume i: "i < maxPanes s" and h: "pendingReturnCompletion s ! i \<noteq> 0"
    show "(pendingReturnCompletion (update dt s) ! i = 0)
                 = (i < nat (activePanes s) \<and> paneVisible (animationParams s) i
                    \<and> cycleOf (uniformTime s + dt) (animationParams s) i \<le> 1 - epsilon)"
      using ent [OF i] h by (auto simp: reconcile_pending_def split: if_splits)
  qed
  have b2: "\<forall>i<maxPanes s. pendingReturnCompletion s ! i \<noteq> 0
               \<and> pendingReturnCompletion (update dt s) ! i = 0
             \<longrightarrow> 0 \<le> cycleOf (uniformTime s + dt) (animationParams s) i
                 \<and> cycleOf (uniformTime s + dt) (animationParams s) i < 1
                 \<and> animationParams (update dt s) ! (i * 4)
                     = wrapProgress (- (uniformTime s + dt) * animationParams s ! (i * 4 + 1)) 2"
  proof (intro allI impI)
    fix i assume i: "i < maxPanes s" and h: "pendingReturnCompletion s ! i \<noteq> 0
               \<and> pendingReturnCompletion (update dt s) ! i = 0"
    have "0 \<le> cycleOf (uniformTime s + dt) (animationParams s) i"
      unfolding cycleOf_def by (rule wrapProgress_range) simp
    then show "0 \<le> cycleOf (uniformTime s + dt) (animationParams s) i
                 \<and> cycleOf (uniformTime s + dt) (animationParams s) i < 1
                 \<and> animationParams (update dt s) ! (i * 4)
                     = wrapProgress (- (uniformTime s + dt) * animationParams s ! (i * 4 + 1)) 2"
      using ent [OF i] h epsilon_pos
      by (auto simp: reconcile_pending_def reconcile_phase_def split: if_splits)
  qed
  have c: "\<forall>i<maxPanes s. pendingReturnCompletion s ! i \<noteq> 0
               \<and> 1 - epsilon < cycleOf (uniformTime s + dt) (animationParams s) i
             \<longrightarrow> animationParams (update dt s) ! (i * 4) = animationParams s ! (i * 4)
                 \<and> pendingReturnCompletion (update dt s) ! i = pendingReturnCompletion s ! i"
  proof (intro allI impI)
    fix i assume i: "i < maxPanes s" and h: "pendingReturnCompletion s ! i \<noteq> 0
               \<and> 1 - epsilon < cycleOf (uniformTime s + dt) (animationParams s) i"
    show "animationParams (update dt s) ! (i * 4) = animationParams s ! (i * 4)
                 \<and> pendingReturnCompletion (update dt s) ! i = pendingReturnCompletion s ! i"
      using ent [OF i] h
      by (auto simp: reconcile_pending_def reconcile_phase_def split: if_splits)
  qed
  from a v b1 b2 c show ?thesis by blast
qed

text \<open>
  The constructor establishes \<open>wfPlanes\<close> and every public operation preserves it, so it
  holds in every reachable state.
\<close>

lemma length_concat_const:
  "length (concat (map (\<lambda>i. [f i, a, b, c]) [0..<m])) = m * 4"
  by (induction m) simp_all

lemma length_concat_const4:
  "length (concat (map (\<lambda>i. [a, b, c, d]) [0..<m])) = m * 4"
  by (induction m) simp_all

lemma wfPlanes_new: "wfPlanes (PlanesShader_new options random)"
  by (simp add: wfPlanes_def PlanesShader_new_def Let_def length_concat_const
      length_concat_const4 split: option.splits)

lemma length_js_fill: "length (js_fill v a b xs) = length xs"
  by (simp add: js_fill_def Let_def)

lemma wfPlanes_setters:
  assumes "wfPlanes s"
  shows "wfPlanes (setCurveControlPoints i cps s)"
    and "wfPlanes (setPaneColor i rgb s)"
    and "wfPlanes (setPaneSize i sz s)"
    and "wfPlanes (setElevationOffset i off s)"
    and "wfPlanes (setAnimationSpeed i speed s)"
    and "wfPlanes (setTiltMode i mode s)"
    and "wfPlanes (hidePane i s)"
    and "wfPlanes (setTextureIndex i ti s)"
    and "wfPlanes (setActivePaneCount n s)"
    and "wfPlanes (setReturnMode True s)"
  using assms
  by (auto simp: wfPlanes_def setCurveControlPoints_def setPaneColor_def setPaneSize_def
      setElevationOffset_def setAnimationSpeed_def setTiltMode_def hidePane_def
      setTextureIndex_def setActivePaneCount_def setReturnMode_def Let_def length_js_fill
      split: option.splits prod.splits)

lemma wfPlanes_update:
  assumes "wfPlanes s"
  shows "wfPlanes (update dt s)"
proof (cases "returnModeEnabled s \<and> \<not> returnModePreferred s")
  case True
  then show ?thesis using assms update_drain(1) by blast
next
  case False
  then show ?thesis using assms
    by (auto simp: update_def reconcileReturnMode_def wfPlanes_def)
qed




lemma setReturnMode_False:
  assumes wf: "wfPlanes s"
  shows "wfPlanes (setReturnMode False s)"
    and "returnModeEnabled (setReturnMode False s) = returnModeEnabled s"
    and "\<not> returnModePreferred (setReturnMode False s)"
    and "\<forall>i<maxPanes s.
           animationParams (setReturnMode False s) ! (i * 4 + 1) = animationParams s ! (i * 4 + 1) \<and>
           animationParams (setReturnMode False s) ! (i * 4 + 2) = animationParams s ! (i * 4 + 2) \<and>
           animationParams (setReturnMode False s) ! (i * 4 + 3) = animationParams s ! (i * 4 + 3) \<and>
           animationParams (setReturnMode False s) ! (i * 4)
             = (if i < nat (activePanes s)
                then disable_phase (uniformTime s) (animationParams s) i
                else animationParams s ! (i * 4)) \<and>
           pendingReturnCompletion (setReturnMode False s) ! i
             = (if i < nat (activePanes s)
                then disable_pending (uniformTime s) (animationParams s) (pendingReturnCompletion s) i
                else pendingReturnCompletion s ! i)"
    and "activePanes (setReturnMode False s) = activePanes s"
    and "maxPanes (setReturnMode False s) = maxPanes s"
    and "uniformTime (setReturnMode False s) = uniformTime s"
proof -
  let ?F = "fold (setReturnMode_step (uniformTime s)) [0..<nat (activePanes s)]
                (animationParams s, pendingReturnCompletion s, False)"
  obtain p' q' u' where F: "?F = (p', q', u')" by (cases ?F) auto
  have "disable_inv (uniformTime s) (maxPanes s) (animationParams s) (pendingReturnCompletion s)
          (nat (activePanes s)) ?F"
    using wf by (intro disable_inv_fold nat_active_le) (auto simp: wfPlanes_def)
  then have inv: "disable_inv (uniformTime s) (maxPanes s) (animationParams s)
      (pendingReturnCompletion s) (nat (activePanes s)) (p', q', u')"
    by (simp only: F)
  have R: "setReturnMode False s =
     s\<lparr>returnModePreferred := False, animationParams := p', pendingReturnCompletion := q',
        paneNeedsUpdate := (if u' then insert AttrAnimationParams (paneNeedsUpdate s)
                            else paneNeedsUpdate s)\<rparr>"
    using F by (simp add: setReturnMode_def getTimeUniform_def)
  show "wfPlanes (setReturnMode False s)"
    using wf inv by (simp add: R wfPlanes_def disable_inv_def)
  show "\<forall>i<maxPanes s.
           animationParams (setReturnMode False s) ! (i * 4 + 1) = animationParams s ! (i * 4 + 1) \<and>
           animationParams (setReturnMode False s) ! (i * 4 + 2) = animationParams s ! (i * 4 + 2) \<and>
           animationParams (setReturnMode False s) ! (i * 4 + 3) = animationParams s ! (i * 4 + 3) \<and>
           animationParams (setReturnMode False s) ! (i * 4)
             = (if i < nat (activePanes s)
                then disable_phase (uniformTime s) (animationParams s) i
                else animationParams s ! (i * 4)) \<and>
           pendingReturnCompletion (setReturnMode False s) ! i
             = (if i < nat (activePanes s)
                then disable_pending (uniformTime s) (animationParams s) (pendingReturnCompletion s) i
                else pendingReturnCompletion s ! i)"
    using inv by (simp add: R disable_inv_def)
  show "returnModeEnabled (setReturnMode False s) = returnModeEnabled s"
    "\<not> returnModePreferred (setReturnMode False s)"
    "activePanes (setReturnMode False s) = activePanes s"
    "maxPanes (setReturnMode False s) = maxPanes s"
    "uniformTime (setReturnMode False s) = uniformTime s"
    by (simp_all add: R)
qed

lemma drainOk_update:
  assumes "drainOk s"
  shows "drainOk (update dt s)" and "activePanes (update dt s) = activePanes s"
proof -
  from assms have wf: "wfPlanes s" and pr: "\<not> returnModePreferred s"
    by (simp_all add: drainOk_def)
  have "drainOk (update dt s) \<and> activePanes (update dt s) = activePanes s"
  proof (cases "returnModeEnabled s")
    case True
    note u = update_drain [OF wf True pr, of dt]
    note d = drain_update_step [OF wf True pr, of dt]
    from d have "returnModeEnabled (update dt s)
            = (\<exists>i<nat (activePanes s). paneVisible (animationParams (update dt s)) i
                   \<and> pendingReturnCompletion (update dt s) ! i \<noteq> 0)" by blast
    then show ?thesis using u(1,4,7) pr unfolding drainOk_def by auto
  next
    case False
    then have "update dt s = s\<lparr>uniformTime := uniformTime s + dt\<rparr>"
      using pr by (simp add: update_def reconcileReturnMode_def)
    then show ?thesis using assms False by (simp add: drainOk_def wfPlanes_time)
  qed
  then show "drainOk (update dt s)" and "activePanes (update dt s) = activePanes s"
    by simp_all
qed

lemma drainOk_updates:
  assumes "drainOk s"
  shows "drainOk (fold update ds s) \<and> activePanes (fold update ds s) = activePanes s"
  using assms
proof (induction ds arbitrary: s)
  case Nil
  then show ?case by simp
next
  case (Cons d ds)
  from drainOk_update [OF Cons.prems, of d] Cons.IH [of "update d s"]
  show ?case by simp
qed

lemma drain_across_updates:
  assumes "wfPlanes s" "returnModeEnabled s" "\<not> returnModePreferred s"
    and "i < nat (activePanes s)" "paneVisible (animationParams (fold update ds s)) i"
    and "pendingReturnCompletion (fold update ds s) ! i \<noteq> 0"
  shows "returnModeEnabled (fold update ds s)"
proof -
  have "drainOk s" using assms(1-3) by (simp add: drainOk_def)
  from drainOk_updates [OF this, of ds] assms(4-6) show ?thesis
    by (auto simp: drainOk_def)
qed

lemma wfPlanes_disable: "wfPlanes s \<Longrightarrow> wfPlanes (setReturnMode False s)"
  by (rule setReturnMode_False(1))

text \<open>
  Claim C1 (return-mode drain invariant), as amended. A disable request leaves the
  enabled flag as it is, and for each active and visible instance it sets the pending
  flag exactly when the cycle exceeds \<open>1 + epsilon\<close>, without rewinding such an instance.
  While return mode is enabled and no longer preferred, through any sequence of updates
  the enabled flag is true whenever an active and visible instance has its pending flag
  set, and after each \<open>update\<close>:
  \<^item> the enabled flag is still true exactly when some active and visible instance still
    has its pending flag set;
  \<^item> \<open>update\<close> changes no visible flag;
  \<^item> a set pending flag is cleared exactly when its instance is active, visible and has
    \<open>cycle \<le> 1 - epsilon\<close>; the cycle is then in \<open>[0, 1)\<close> and the phase is restarted at
    \<open>(- time * speed) mod 2\<close>;
  \<^item> an instance with its pending flag set and \<open>cycle > 1 - epsilon\<close> (so every one on its
    return leg) keeps its phase and its flag: it is not rewound.
  Hidden instances and instances beyond the active count are skipped by both loops, so
  their flags neither keep return mode enabled nor are cleared by \<open>update\<close>.
\<close>

theorem drain_invariant:
  assumes wf: "wfPlanes s"
  shows "returnModeEnabled (setReturnMode False s) = returnModeEnabled s
       \<and> \<not> returnModePreferred (setReturnMode False s)
       \<and> (\<forall>i<nat (activePanes s). paneVisible (animationParams s) i \<longrightarrow>
             (pendingReturnCompletion (setReturnMode False s) ! i \<noteq> 0)
               = (1 + epsilon < cycleOf (uniformTime s) (animationParams s) i)
           \<and> (pendingReturnCompletion (setReturnMode False s) ! i \<noteq> 0
                \<longrightarrow> animationParams (setReturnMode False s) ! (i * 4)
                      = animationParams s ! (i * 4)))
       \<and> (returnModeEnabled s \<and> \<not> returnModePreferred s \<longrightarrow>
            (\<forall>i<nat (activePanes s). paneVisible (animationParams (fold update ds s)) i
                 \<and> pendingReturnCompletion (fold update ds s) ! i \<noteq> 0
               \<longrightarrow> returnModeEnabled (fold update ds s))
          \<and> (returnModeEnabled (update dt s)
              = (\<exists>i<nat (activePanes s). paneVisible (animationParams (update dt s)) i
                     \<and> pendingReturnCompletion (update dt s) ! i \<noteq> 0))
          \<and> (\<forall>i<maxPanes s. paneVisible (animationParams (update dt s)) i
                 = paneVisible (animationParams s) i)
          \<and> (\<forall>i<maxPanes s. pendingReturnCompletion s ! i \<noteq> 0
               \<longrightarrow> (pendingReturnCompletion (update dt s) ! i = 0)
                   = (i < nat (activePanes s) \<and> paneVisible (animationParams s) i
                      \<and> cycleOf (uniformTime s + dt) (animationParams s) i \<le> 1 - epsilon))
          \<and> (\<forall>i<maxPanes s. pendingReturnCompletion s ! i \<noteq> 0
                 \<and> pendingReturnCompletion (update dt s) ! i = 0
               \<longrightarrow> 0 \<le> cycleOf (uniformTime s + dt) (animationParams s) i
                   \<and> cycleOf (uniformTime s + dt) (animationParams s) i < 1
                   \<and> animationParams (update dt s) ! (i * 4)
                       = wrapProgress (- (uniformTime s + dt) * animationParams s ! (i * 4 + 1)) 2)
          \<and> (\<forall>i<maxPanes s. pendingReturnCompletion s ! i \<noteq> 0
                 \<and> 1 - epsilon < cycleOf (uniformTime s + dt) (animationParams s) i
               \<longrightarrow> animationParams (update dt s) ! (i * 4) = animationParams s ! (i * 4)
                   \<and> pendingReturnCompletion (update dt s) ! i = pendingReturnCompletion s ! i))"
proof -
  note r = setReturnMode_False [OF wf]
  have n: "nat (activePanes s) \<le> maxPanes s" using wf by (rule nat_active_le)
  have d: "\<forall>i<nat (activePanes s). paneVisible (animationParams s) i \<longrightarrow>
             (pendingReturnCompletion (setReturnMode False s) ! i \<noteq> 0)
               = (1 + epsilon < cycleOf (uniformTime s) (animationParams s) i)
           \<and> (pendingReturnCompletion (setReturnMode False s) ! i \<noteq> 0
                \<longrightarrow> animationParams (setReturnMode False s) ! (i * 4)
                      = animationParams s ! (i * 4))"
  proof (intro allI impI)
    fix i assume i: "i < nat (activePanes s)" and v: "paneVisible (animationParams s) i"
    then have "i < maxPanes s" using n by simp
    with r(4) have "animationParams (setReturnMode False s) ! (i * 4)
             = (if i < nat (activePanes s)
                then disable_phase (uniformTime s) (animationParams s) i
                else animationParams s ! (i * 4)) \<and>
           pendingReturnCompletion (setReturnMode False s) ! i
             = (if i < nat (activePanes s)
                then disable_pending (uniformTime s) (animationParams s) (pendingReturnCompletion s) i
                else pendingReturnCompletion s ! i)"
      by blast
    then show "(pendingReturnCompletion (setReturnMode False s) ! i \<noteq> 0)
               = (1 + epsilon < cycleOf (uniformTime s) (animationParams s) i)
           \<and> (pendingReturnCompletion (setReturnMode False s) ! i \<noteq> 0
                \<longrightarrow> animationParams (setReturnMode False s) ! (i * 4)
                      = animationParams s ! (i * 4))"
      using i v by (simp add: disable_phase_def disable_pending_def)
  qed
  have e: "returnModeEnabled s \<and> \<not> returnModePreferred s \<longrightarrow>
            (\<forall>i<nat (activePanes s). paneVisible (animationParams (fold update ds s)) i
                 \<and> pendingReturnCompletion (fold update ds s) ! i \<noteq> 0
               \<longrightarrow> returnModeEnabled (fold update ds s))"
    using drain_across_updates [OF wf] by blast
  from r(2,3) d e drain_update_step [OF wf, of dt] show ?thesis by blast
qed



lemma demo_planes_eval:
  "demo_planes = \<lparr>maxPanes = 1, baseSize = 100, returnModeEnabled = True, defaultElevation = 0,
          controlPointsPack1 = [3020, 0, 0, 3050],
          controlPointsPack2 = [300, 0, 3050, 600],
          controlPointsPack3 = [0, 2950, 900, 0],
          instanceColors = [1, 1, 1],
          instanceScales = [0],
          instanceElevations = [0],
          instanceUvTransforms = [0, 0, 1, 1],
          animationParams = [0, 1 / 10, 0, 1],
          activePanes = 1, atlasInfo = None, planesVisible = True,
          returnModePreferred = True,
          pendingReturnCompletion = [0],
          uniformTime = 15, uniformReturnMode = 1,
          uniformPaneVisibility = 1,
          paneNeedsUpdate = {AttrControlPointsPack1, AttrControlPointsPack2,
            AttrControlPointsPack3, AttrInstanceColor, AttrInstanceScale,
            AttrInstanceElevation, AttrInstanceUVTransform, AttrAnimationParams},
          planesLog = []\<rparr>"
  by (simp add: demo_planes_def PlanesShader_new_def demo_points_def vec_def
      setCurveControlPoints_def setActivePaneCount_def update_def reconcileReturnMode_def
      Let_def insert_commute eval_nat_numeral)

lemmas eval_defs = wrapProgress_def js_rem_def js_trunc_def epsilon_def Let_def
  getTimeUniform_def eval_nat_numeral

lemma demo_flagged_eval:
  "demo_flagged = demo_planes\<lparr>returnModePreferred := False, pendingReturnCompletion := [1]\<rparr>"
  by (simp add: demo_flagged_def demo_planes_eval setReturnMode_def setReturnMode_step_def eval_defs)


text \<open>
  The drain invariant at the demo state after a disable request at time 15: one second
  later the instance is still on its return leg (cycle 1.6), flagged, not rewound, and
  return mode is still enabled; five seconds later (cycle 0) the flag is cleared and
  return mode is off.
\<close>

theorem drain_invariant_witness:
  "wfPlanes demo_planes \<and> returnModeEnabled demo_planes
   \<and> paneVisible (animationParams demo_planes) 0
   \<and> cycleOf (uniformTime demo_planes) (animationParams demo_planes) 0 = 3 / 2
   \<and> pendingReturnCompletion demo_flagged ! 0 \<noteq> 0
   \<and> animationParams demo_flagged ! 0 = animationParams demo_planes ! 0
   \<and> wfPlanes demo_flagged \<and> returnModeEnabled demo_flagged
   \<and> \<not> returnModePreferred demo_flagged
   \<and> cycleOf (uniformTime demo_flagged + 1) (animationParams demo_flagged) 0 = 8 / 5
   \<and> returnModeEnabled (update 1 demo_flagged)
   \<and> animationParams (update 1 demo_flagged) ! 0 = animationParams demo_flagged ! 0
   \<and> pendingReturnCompletion (update 1 demo_flagged) ! 0 = 1
   \<and> \<not> returnModeEnabled (update 5 demo_flagged)
   \<and> pendingReturnCompletion (update 5 demo_flagged) ! 0 = 0"
proof -
  have g: "wfPlanes demo_planes" "returnModeEnabled demo_planes"
    "paneVisible (animationParams demo_planes) 0" "nat (activePanes demo_planes) = 1"
    by (simp_all add: demo_planes_eval wfPlanes_def paneVisible_def)
  have gc: "cycleOf (uniformTime demo_planes) (animationParams demo_planes) 0 = 3 / 2"
    by (simp add: demo_planes_eval cycleOf_def eval_defs)
  have h: "wfPlanes demo_flagged" "returnModeEnabled demo_flagged"
    "\<not> returnModePreferred demo_flagged"
    by (simp_all add: demo_flagged_eval demo_planes_eval wfPlanes_def)
  have m: "maxPanes demo_flagged = 1" "nat (activePanes demo_flagged) = 1"
    "pendingReturnCompletion demo_flagged ! 0 = 1"
    "paneVisible (animationParams demo_flagged) 0"
    by (simp_all add: demo_flagged_eval demo_planes_eval paneVisible_def)
  have c: "cycleOf (uniformTime demo_flagged + 1) (animationParams demo_flagged) 0 = 8 / 5"
    "cycleOf (uniformTime demo_flagged + 5) (animationParams demo_flagged) 0 = 0"
    by (simp_all add: demo_flagged_eval demo_planes_eval cycleOf_def eval_defs)
  have a: "pendingReturnCompletion demo_flagged ! 0 \<noteq> 0
      \<and> animationParams demo_flagged ! 0 = animationParams demo_planes ! 0"
    using g gc drain_invariant [OF g(1)] unfolding demo_flagged_def
    by (simp add: epsilon_def)
  show ?thesis
    using g gc a h m c drain_invariant [OF h(1), where dt = 1 and ds = "[1]"]
      drain_invariant [OF h(1), where dt = 5 and ds = "[]"]
    by (simp add: epsilon_def)
qed

text \<open>
  The drain invariant as claimed for every instance fails: hiding the flagged instance
  makes the next \<open>update\<close> switch return mode off while the pending flag of that
  instance is still set.
\<close>

theorem drain_invariant_counterexample:
  "pendingReturnCompletion demo_flagged ! 0 = 1 \<and> returnModeEnabled demo_flagged
   \<and> pendingReturnCompletion (update 1 (hidePane 0 demo_flagged)) ! 0 = 1
   \<and> \<not> returnModeEnabled (update 1 (hidePane 0 demo_flagged))"
  by (simp add: demo_flagged_eval demo_planes_eval hidePane_def update_def
      reconcileReturnMode_def reconcile_step_def eval_defs)

lemma steady_planes_eval:
  "maxPanes steady_planes = 1" "animationParams steady_planes = [0, 1 / 2, 0, 0]"
  "uniformTime steady_planes = 0" "returnModeEnabled steady_planes = False"
  "returnModePreferred steady_planes = False"
  by (simp_all add: steady_planes_def setAnimationSpeed_def PlanesShader_new_def eval_defs
      float32_half float32_zero)

lemma late_planes_eval:
  "maxPanes late_planes = 1" "animationParams late_planes = [0, 1 / 2, 0, 0]"
  "uniformTime late_planes = 10000" "period late_planes = 1"
  by (simp_all add: late_planes_def update_def reconcileReturnMode_def period_def
      steady_planes_eval)

lemma seam_planes_eval:
  "maxPanes seam_planes = 1" "animationParams seam_planes = [0, 1 / 2, 0, 0]"
  "uniformTime seam_planes = 20" "period seam_planes = 1"
  by (simp_all add: seam_planes_def update_def reconcileReturnMode_def period_def
      steady_planes_eval)

text \<open>
  The continuity theorem at slot 0 of the demo state (time 15, speed 0.1, phase 0,
  round-trip mode, progress 1.5). A change to speed 0.3 stores the binary32 number
  \<open>10066330 / 33554432\<close> and the phase 1, and moves the progress by less than \<open>1e-4\<close>; a change to
  speed 0.25 stores 0.25 and the phase 1.75, both binary32 numbers, and leaves the progress
  as it was.
\<close>

theorem speed_change_continuity_witness:
  "(0::int) \<le> 0 \<and> 0 < int (maxPanes demo_planes)
   \<and> length (animationParams demo_planes) = maxPanes demo_planes * 4
   \<and> \<bar>3 / 10\<bar> \<le> pow2 127 \<and> \<bar>1 / 4\<bar> \<le> pow2 127
   \<and> \<bar>uniformTime demo_planes\<bar> \<le> 1000000 \<and> \<bar>uniformTime demo_planes * (3 / 10)\<bar> \<le> 1000
   \<and> progress demo_planes 0 = 3 / 2 \<and> period demo_planes = 2
   \<and> animationParams (setAnimationSpeed 0 (3 / 10) demo_planes) ! 1 = 10066330 / 33554432
   \<and> animationParams (setAnimationSpeed 0 (3 / 10) demo_planes) ! 0 = 1
   \<and> \<bar>progress (setAnimationSpeed 0 (3 / 10) demo_planes) 0 - progress demo_planes 0\<bar>
        < 1 / 10000
   \<and> animationParams (setAnimationSpeed 0 (1 / 4) demo_planes) ! 1 = 1 / 4
   \<and> animationParams (setAnimationSpeed 0 (1 / 4) demo_planes) ! 0 = 7 / 4
   \<and> progress (setAnimationSpeed 0 (1 / 4) demo_planes) 0 = progress demo_planes 0"
proof -
  have h: "(0::int) \<le> 0" "0 < int (maxPanes demo_planes)"
    "length (animationParams demo_planes) = maxPanes demo_planes * 4"
    by (simp_all add: demo_planes_eval)
  have b: "\<bar>3 / 10\<bar> \<le> pow2 127" "\<bar>1 / 4\<bar> \<le> pow2 127"
    by (simp_all add: pow2_def)
  have t: "\<bar>uniformTime demo_planes\<bar> \<le> 1000000" "\<bar>uniformTime demo_planes * (3 / 10)\<bar> \<le> 1000"
    by (simp_all add: demo_planes_eval)
  have p: "progress demo_planes (nat 0) = 3 / 2"
    by (simp add: demo_planes_eval progress_def period_def eval_defs)
  have P: "period demo_planes = 2" by (simp add: demo_planes_eval period_def)
  have r: "1 / 10000 \<le> progress demo_planes (nat 0)"
    "progress demo_planes (nat 0) \<le> period demo_planes - 1 / 10000"
    unfolding p P by simp_all
  have q3: "wrapProgress (progress demo_planes (nat 0) - uniformTime demo_planes * (3 / 10))
              (period demo_planes) = 1"
    by (simp only: p P) (simp add: demo_planes_eval eval_defs)
  have q4: "wrapProgress (progress demo_planes (nat 0) - uniformTime demo_planes * (1 / 4))
              (period demo_planes) = 7 / 4"
    by (simp only: p P) (simp add: demo_planes_eval eval_defs)
  note t3 = speed_change_continuity [OF h b(1), unfolded q3 float32_one float32_three_tenths]
  note t4 = speed_change_continuity [OF h b(2), unfolded q4 float32_seven_quarters
      float32_quarter]
  have a3: "animationParams (setAnimationSpeed 0 (3 / 10) demo_planes) ! (nat 0 * 4 + 1)
      = 10066330 / 33554432"
    "animationParams (setAnimationSpeed 0 (3 / 10) demo_planes) ! (nat 0 * 4) = 1"
    using t3 by blast+
  have c3: "\<bar>progress (setAnimationSpeed 0 (3 / 10) demo_planes) (nat 0)
      - progress demo_planes (nat 0)\<bar> < 1 / 10000"
    using t3 t r by blast
  have a4: "animationParams (setAnimationSpeed 0 (1 / 4) demo_planes) ! (nat 0 * 4 + 1) = 1 / 4"
    "animationParams (setAnimationSpeed 0 (1 / 4) demo_planes) ! (nat 0 * 4) = 7 / 4"
    using t4 by blast+
  have c4: "progress (setAnimationSpeed 0 (1 / 4) demo_planes) (nat 0)
      = progress demo_planes (nat 0)"
    using t4 by blast
  show ?thesis using h b t p P a3 c3 a4 c4 by simp
qed

text \<open>
  The claim as stated, for every time, fails. A slot running at speed 0.5 with phase 0
  (both binary32 numbers) has progress 0 at time 10000; a change to speed 0.3 stores
  \<open>10066330 / 33554432\<close>, and the progress read back is \<open>125 / 1048576\<close>, about \<open>1.19e-4\<close>. At time 20
  the same slot has progress 0 again; a change to speed 0.7 stores \<open>11744051 / 16777216\<close>, just
  below 0.7, and the progress read back is just below the period: the two readings are
  one period apart, less \<open>2.4e-7\<close>.
\<close>

theorem speed_change_continuity_counterexample:
  "(0::int) \<le> 0 \<and> 0 < int (maxPanes late_planes) \<and> uniformTime late_planes = 10000
   \<and> progress late_planes 0 = 0
   \<and> progress (setAnimationSpeed 0 (3 / 10) late_planes) 0 = 125 / 1048576
   \<and> \<not> \<bar>progress (setAnimationSpeed 0 (3 / 10) late_planes) 0 - progress late_planes 0\<bar>
        < 1 / 10000
   \<and> 0 < int (maxPanes seam_planes) \<and> uniformTime seam_planes = 20
   \<and> progress seam_planes 0 = 0
   \<and> progress (setAnimationSpeed 0 (7 / 10) seam_planes) 0 = 4194303 / 4194304
   \<and> \<not> \<bar>progress (setAnimationSpeed 0 (7 / 10) seam_planes) 0 - progress seam_planes 0\<bar>
        < 1 / 10000"
proof -
  have l0: "progress late_planes 0 = 0"
    by (simp add: progress_def late_planes_eval eval_defs)
  have "progress (setAnimationSpeed 0 (3 / 10) late_planes) (nat 0)
      = wrapProgress (uniformTime late_planes * float32 (3 / 10)
          + float32 (wrapProgress (progress late_planes (nat 0) - uniformTime late_planes * (3 / 10))
              (period late_planes))) (period late_planes)"
    by (rule setAnimationSpeed_progress) (simp_all add: late_planes_eval)
  then have l2: "progress (setAnimationSpeed 0 (3 / 10) late_planes) 0 = 125 / 1048576"
    by (simp add: l0 late_planes_eval float32_three_tenths float32_zero eval_defs)
  have s0: "progress seam_planes 0 = 0"
    by (simp add: progress_def seam_planes_eval eval_defs)
  have "progress (setAnimationSpeed 0 (7 / 10) seam_planes) (nat 0)
      = wrapProgress (uniformTime seam_planes * float32 (7 / 10)
          + float32 (wrapProgress (progress seam_planes (nat 0) - uniformTime seam_planes * (7 / 10))
              (period seam_planes))) (period seam_planes)"
    by (rule setAnimationSpeed_progress) (simp_all add: seam_planes_eval)
  then have s2: "progress (setAnimationSpeed 0 (7 / 10) seam_planes) 0 = 4194303 / 4194304"
    by (simp add: s0 seam_planes_eval float32_seven_tenths float32_zero eval_defs)
  show ?thesis unfolding l0 l2 s0 s2 by (simp add: late_planes_eval seam_planes_eval)
qed

section \<open>Properties of the path renderer, the path generator and the flight\<close>

lemma applyColorToCurve_fields:
  "currentCurveCount (applyColorToCurve three i s) = currentCurveCount s"
  "drawRange (applyColorToCurve three i s) = drawRange s"
  "maxCurves (applyColorToCurve three i s) = maxCurves s"
  "verticesPerCurve (applyColorToCurve three i s) = verticesPerCurve s"
  by (simp_all add: applyColorToCurve_def Let_def)

lemma setCurve_fields:
  "maxCurves (setCurve three i cps c md s) = maxCurves s"
  "verticesPerCurve (setCurve three i cps c md s) = verticesPerCurve s"
  by (simp_all add: setCurve_def Let_def updateDrawRange_def applyColorToCurve_fields
      split: prod.splits)

lemma setCurve_count:
  "currentCurveCount (setCurve three i cps c md s)
     = (if 0 \<le> i \<and> i < int (maxCurves s) \<and> 2 \<le> length cps \<and> currentCurveCount s \<le> i
        then i + 1 else currentCurveCount s)"
  by (simp add: setCurve_def Let_def updateDrawRange_def applyColorToCurve_fields
      split: prod.splits)

lemma setCurve_drawRange:
  "drawRange (setCurve three i cps c md s)
     = (if 0 \<le> i \<and> i < int (maxCurves s) \<and> 2 \<le> length cps \<and> currentCurveCount s \<le> i
        then (0, (i + 1) * int (verticesPerCurve s)) else drawRange s)"
  by (simp add: setCurve_def Let_def updateDrawRange_def applyColorToCurve_fields
      split: prod.splits)

lemma hideCurve_fields:
  "currentCurveCount (hideCurve i s) = currentCurveCount s"
  "drawRange (hideCurve i s) = drawRange s"
  "maxCurves (hideCurve i s) = maxCurves s"
  "verticesPerCurve (hideCurve i s) = verticesPerCurve s"
  by (simp_all add: hideCurve_def Let_def)

lemma setVisibleCurveCount_fields:
  "currentCurveCount (setVisibleCurveCount n s) = min n (int (maxCurves s))"
  "drawRange (setVisibleCurveCount n s) = (0, min n (int (maxCurves s)) * int (verticesPerCurve s))"
  "maxCurves (setVisibleCurveCount n s) = maxCurves s"
  "verticesPerCurve (setVisibleCurveCount n s) = verticesPerCurve s"
  by (simp_all add: setVisibleCurveCount_def updateDrawRange_def Let_def)

lemma drawRangeOk_op:
  assumes "drawRangeOk s"
  shows "drawRangeOk (applyCurveOp three op s)"
    and "maxCurves (applyCurveOp three op s) = maxCurves s"
    and "verticesPerCurve (applyCurveOp three op s) = verticesPerCurve s"
  using assms
  by (cases op; simp add: drawRangeOk_def setCurve_fields setCurve_count setCurve_drawRange
      hideCurve_fields setVisibleCurveCount_fields)+

lemma drawRangeOk_ops:
  assumes "drawRangeOk s"
  shows "drawRangeOk (fold (applyCurveOp three) ops s)
       \<and> maxCurves (fold (applyCurveOp three) ops s) = maxCurves s
       \<and> verticesPerCurve (fold (applyCurveOp three) ops s) = verticesPerCurve s"
  using assms
proof (induction ops arbitrary: s)
  case Nil
  then show ?case by simp
next
  case (Cons op ops)
  from drawRangeOk_op [OF Cons.prems, of three op] Cons.IH [of "applyCurveOp three op s"]
  show ?case by simp
qed

lemma drawRangeOk_new: "drawRangeOk (Curves_new options)"
  by (simp add: drawRangeOk_def Curves_new_def Let_def)

text \<open>
  Claim C4 (draw-range invariant). After any sequence of \<open>setCurve\<close>, \<open>hideCurve\<close> and
  \<open>setVisibleCurveCount\<close> calls on a freshly constructed renderer, the draw range starts
  at vertex 0 and counts \<open>currentCurveCount * verticesPerCurve\<close> vertices, which is at most
  \<open>maxCurves * verticesPerCurve\<close>; and \<open>setVisibleCurveCount n\<close> sets the visible curve
  count to \<open>min n maxCurves\<close> and the draw range to that many curves.
\<close>

theorem draw_range_invariant:
  "drawRange (fold (applyCurveOp three) ops (Curves_new options))
     = (0, currentCurveCount (fold (applyCurveOp three) ops (Curves_new options))
           * int (verticesPerCurve (Curves_new options)))
   \<and> snd (drawRange (fold (applyCurveOp three) ops (Curves_new options)))
       \<le> int (maxCurves (Curves_new options)) * int (verticesPerCurve (Curves_new options))
   \<and> currentCurveCount
         (setVisibleCurveCount n (fold (applyCurveOp three) ops (Curves_new options)))
       = min n (int (maxCurves (Curves_new options)))
   \<and> drawRange (setVisibleCurveCount n (fold (applyCurveOp three) ops (Curves_new options)))
       = (0, min n (int (maxCurves (Curves_new options)))
             * int (verticesPerCurve (Curves_new options)))"
proof -
  let ?s = "fold (applyCurveOp three) ops (Curves_new options)"
  from drawRangeOk_ops [OF drawRangeOk_new, of three ops options]
  have ok: "drawRangeOk ?s" and m: "maxCurves ?s = maxCurves (Curves_new options)"
    and v: "verticesPerCurve ?s = verticesPerCurve (Curves_new options)" by auto
  have "currentCurveCount ?s * int (verticesPerCurve ?s)
      \<le> int (maxCurves ?s) * int (verticesPerCurve ?s)"
    using ok by (intro mult_right_mono) (auto simp: drawRangeOk_def)
  then show ?thesis using ok m v
    by (simp add: drawRangeOk_def setVisibleCurveCount_fields)
qed

lemma vec_sel [simp]: "vx (vec a b c) = a" "vy (vec a b c) = b" "vz (vec a b c) = c"
  by (simp_all add: vec_def)

lemma vec_eq_iff: "(vec a b c = vec a' b' c') = (a = a' \<and> b = b' \<and> c = c')"
  by (simp add: vec_def)

lemma vec_eta: "vec (vx v) (vy v) (vz v) = v"
  by (simp add: vec_def)

lemma lengthSq_spherical: "lengthSq (sphericalToCartesian r p t) = r\<^sup>2"
proof -
  have "lengthSq (sphericalToCartesian r p t)
      = r * r * (sin p * sin p * (cos t * cos t + sin t * sin t) + cos p * cos p)"
    unfolding sphericalToCartesian_def lengthSq_def vec_sel by algebra
  also have "\<dots> = r * r * (sin p * sin p + cos p * cos p)"
    by (simp only: sin_cos_squared_add3 mult_1_right)
  also have "\<dots> = r * r"
    using sin_cos_squared_add3 [of p] by (simp only: add.commute mult_1_right)
  finally show ?thesis by (simp add: power2_eq_square)
qed

lemma lengthSq_axisRemap: "lengthSq (axisRemap v) = lengthSq v"
  by (simp add: axisRemap_def lengthSq_def)

text \<open>
  Claim C8 (geographic projection). \<open>latLngToVector3\<close> is the axis remap of the standard
  spherical point at polar angle \<open>(90 - lat) * pi / 180\<close> and azimuth
  \<open>(180 - lng) * pi / 180\<close>; the remap is the rotation by +90 degrees about the vertical
  axis, so rotating the result by -90 degrees gives the spherical point back; the result
  lies on the sphere of the given radius.
\<close>

theorem geographic_projection:
  "latLngToVector3 lat lng r
     = axisRemap (sphericalToCartesian r ((90 - lat) * pi / 180) ((180 - lng) * pi / 180))
   \<and> axisRemap (sphericalToCartesian r phi theta)
       = rotateY (pi / 2) (sphericalToCartesian r phi theta)
   \<and> rotateY (- (pi / 2)) (latLngToVector3 lat lng r)
       = sphericalToCartesian r ((90 - lat) * pi / 180) ((180 - lng) * pi / 180)
   \<and> vlength (latLngToVector3 lat lng r) = \<bar>r\<bar>"
proof -
  have a: "latLngToVector3 lat lng r
     = axisRemap (sphericalToCartesian r ((90 - lat) * pi / 180) ((180 - lng) * pi / 180))"
    by (simp add: latLngToVector3_def axisRemap_def sphericalToCartesian_def Let_def
        add.commute)
  have b: "axisRemap (sphericalToCartesian r phi theta)
       = rotateY (pi / 2) (sphericalToCartesian r phi theta)"
    by (simp add: axisRemap_def rotateY_def)
  have c: "rotateY (- (pi / 2)) (latLngToVector3 lat lng r)
       = sphericalToCartesian r ((90 - lat) * pi / 180) ((180 - lng) * pi / 180)"
    unfolding a by (simp add: axisRemap_def rotateY_def sphericalToCartesian_def)
  have d: "vlength (latLngToVector3 lat lng r) = \<bar>r\<bar>"
    unfolding a by (simp add: vlength_def lengthSq_axisRemap lengthSq_spherical)
  from a b c d show ?thesis by blast
qed

lemma lengthSq_nonneg: "0 \<le> lengthSq v"
  by (simp add: lengthSq_def)

lemma vlength_nonneg: "0 \<le> vlength v"
  by (simp add: vlength_def lengthSq_nonneg)

lemma lengthSq_multiplyScalar: "lengthSq (multiplyScalar v s) = s\<^sup>2 * lengthSq v"
  by (simp add: multiplyScalar_def lengthSq_def power2_eq_square algebra_simps)

lemma vlength_multiplyScalar: "vlength (multiplyScalar v s) = \<bar>s\<bar> * vlength v"
  by (simp add: vlength_def lengthSq_multiplyScalar real_sqrt_mult)

lemma multiplyScalar_twice: "multiplyScalar (multiplyScalar v a) b = multiplyScalar v (a * b)"
  by (simp add: multiplyScalar_def mult.assoc)

lemma normalize_pos: "0 < vlength v \<Longrightarrow> normalize v = multiplyScalar v (1 / vlength v)"
  by (simp add: normalize_def divideScalar_def js_or_def)

lemma normalize_zero: "vlength v = 0 \<Longrightarrow> normalize v = v"
proof -
  assume z: "vlength v = 0"
  then have "lengthSq v = 0" by (simp add: vlength_def)
  then have "vx v * vx v + (vy v * vy v + vz v * vz v) = 0" by (simp add: lengthSq_def)
  then have "vx v = 0 \<and> vy v = 0 \<and> vz v = 0"
    by (smt (verit) mult_eq_0_iff zero_le_square)
  then show ?thesis using z
    by (simp add: normalize_def divideScalar_def js_or_def multiplyScalar_def vec_eta)
qed

lemma vlength_normalize: "0 < vlength v \<Longrightarrow> vlength (normalize v) = 1"
  by (simp add: normalize_pos vlength_multiplyScalar)

lemma vlength_normalize_le: "vlength (normalize v) \<le> 1"
proof (cases "0 < vlength v")
  case True
  then show ?thesis by (simp add: vlength_normalize)
next
  case False
  then have "vlength v = 0" using vlength_nonneg [of v] by simp
  then show ?thesis by (simp add: normalize_zero)
qed

lemma ensure_map: "ensureMinimumCurveAltitude ps r m = map (liftPoint (r + m)) ps"
  by (simp add: ensureMinimumCurveAltitude_def liftPoint_def Let_def)

lemma liftPoint_cases:
  "vlength p = 0 \<Longrightarrow> liftPoint sr p = p"
  "sr \<le> vlength p \<Longrightarrow> liftPoint sr p = p"
  "0 < vlength p \<Longrightarrow> vlength p < sr \<Longrightarrow> liftPoint sr p = multiplyScalar p (sr / vlength p)"
  "0 < vlength p \<Longrightarrow> vlength p < sr \<Longrightarrow> vlength (liftPoint sr p) = sr"
  by (simp_all add: liftPoint_def normalize_pos multiplyScalar_twice vlength_multiplyScalar)

lemma vlength_scaled:
  "0 < vlength p \<Longrightarrow> vlength p < sr \<Longrightarrow> vlength (multiplyScalar p (sr / vlength p)) = sr"
  by (simp add: vlength_multiplyScalar)

lemma liftPoint_floor: "0 < vlength p \<Longrightarrow> sr \<le> vlength (liftPoint sr p)"
  by (cases "vlength p < sr") (simp_all add: liftPoint_cases vlength_scaled)

lemma liftPoint_changed: "liftPoint sr p \<noteq> p \<Longrightarrow> 0 < vlength p \<and> vlength p < sr"
  by (auto simp: liftPoint_def split: if_splits)

text \<open>
  Claim C7 (four-point input), as amended. On exactly four points
  \<open>normalizeControlPoints\<close> returns four points in the same order: a point at or above
  the floor \<open>radius + minAltitude\<close> is unchanged; a point other than the origin below the
  floor is scaled by the factor \<open>floor / distance > 1\<close>, so it keeps its direction and has
  distance exactly the floor; the origin is returned unchanged.
\<close>

theorem normalize_four_points:
  assumes "length points = 4"
  shows "length (normalizeControlPoints three points radius minAltitude) = 4
       \<and> (\<forall>i<4.
            (radius + minAltitude \<le> vlength (points ! i)
               \<longrightarrow> normalizeControlPoints three points radius minAltitude ! i = points ! i)
          \<and> (0 < vlength (points ! i) \<and> vlength (points ! i) < radius + minAltitude
               \<longrightarrow> vlength (normalizeControlPoints three points radius minAltitude ! i)
                     = radius + minAltitude
                 \<and> normalizeControlPoints three points radius minAltitude ! i
                     = multiplyScalar (points ! i) ((radius + minAltitude) / vlength (points ! i))
                 \<and> 1 < (radius + minAltitude) / vlength (points ! i))
          \<and> (vlength (points ! i) = 0
               \<longrightarrow> normalizeControlPoints three points radius minAltitude ! i = points ! i))"
proof -
  have ne: "points \<noteq> []" using assms by auto
  have n: "normalizeControlPoints three points radius minAltitude
      = map (liftPoint (radius + minAltitude)) points"
    using assms ne by (simp add: normalizeControlPoints_def cloneControlPoints_def ensure_map)
  have "\<And>i. i < 4 \<Longrightarrow>
            (radius + minAltitude \<le> vlength (points ! i)
               \<longrightarrow> liftPoint (radius + minAltitude) (points ! i) = points ! i)
          \<and> (0 < vlength (points ! i) \<and> vlength (points ! i) < radius + minAltitude
               \<longrightarrow> vlength (liftPoint (radius + minAltitude) (points ! i))
                     = radius + minAltitude
                 \<and> liftPoint (radius + minAltitude) (points ! i)
                     = multiplyScalar (points ! i) ((radius + minAltitude) / vlength (points ! i))
                 \<and> 1 < (radius + minAltitude) / vlength (points ! i))
          \<and> (vlength (points ! i) = 0
               \<longrightarrow> liftPoint (radius + minAltitude) (points ! i) = points ! i)"
    using liftPoint_cases by (simp add: vlength_scaled)
  then show ?thesis unfolding n using assms by (simp add: vlength_scaled)
qed

text \<open>
  The four cases at radius 3000 and minimum altitude 20: on the floor, below it, the
  origin, above it.
\<close>

theorem normalize_four_points_witness:
  "length [vec 3020 0 0, vec 0 1510 0, vec 0 0 0, vec 0 0 4000] = 4
   \<and> normalizeControlPoints demo_three [vec 3020 0 0, vec 0 1510 0, vec 0 0 0, vec 0 0 4000]
         3000 20
       = [vec 3020 0 0, vec 0 3020 0, vec 0 0 0, vec 0 0 4000]"
proof -
  let ?ps = "[vec 3020 0 0, vec 0 1510 0, vec 0 0 0, vec 0 0 4000]"
  have l: "length ?ps = 4" by simp
  have v: "vlength (vec 3020 0 0) = 3020" "vlength (vec 0 1510 0) = 1510"
    "vlength (vec 0 0 0) = 0" "vlength (vec 0 0 4000) = 4000"
    by (simp_all add: vlength_def lengthSq_def)
  note t = normalize_four_points [OF l, of demo_three 3000 20]
  from t have len: "length (normalizeControlPoints demo_three ?ps 3000 20) = 4" by blast
  from t have "normalizeControlPoints demo_three ?ps 3000 20 ! 0 = ?ps ! 0" using v by simp
  moreover from t have "normalizeControlPoints demo_three ?ps 3000 20 ! 1
      = multiplyScalar (?ps ! 1) ((3000 + 20) / vlength (?ps ! 1))" using v by simp
  moreover from t have "normalizeControlPoints demo_three ?ps 3000 20 ! 2 = ?ps ! 2" using v by simp
  moreover from t have "normalizeControlPoints demo_three ?ps 3000 20 ! 3 = ?ps ! 3" using v by simp
  ultimately have e: "normalizeControlPoints demo_three ?ps 3000 20 ! 0 = vec 3020 0 0"
    "normalizeControlPoints demo_three ?ps 3000 20 ! 1 = vec 0 3020 0"
    "normalizeControlPoints demo_three ?ps 3000 20 ! 2 = vec 0 0 0"
    "normalizeControlPoints demo_three ?ps 3000 20 ! 3 = vec 0 0 4000"
    using v by (simp_all add: multiplyScalar_def)
  have "normalizeControlPoints demo_three ?ps 3000 20
      = [vec 3020 0 0, vec 0 3020 0, vec 0 0 0, vec 0 0 4000]"
    using len e by (intro nth_equalityI) (auto simp: less_Suc_eq eval_nat_numeral)
  then show ?thesis by simp
qed

text \<open>
  The claim as stated for every point below the floor fails at the origin: it is below
  the floor 3020 and its image does not have distance 3020.
\<close>

theorem normalize_four_points_counterexample:
  "length [vec 0 0 0, vec 3020 0 0, vec 0 3020 0, vec 0 0 3020] = 4
   \<and> vlength ([vec 0 0 0, vec 3020 0 0, vec 0 3020 0, vec 0 0 3020] ! 0) < 3000 + 20
   \<and> vlength (normalizeControlPoints demo_three
        [vec 0 0 0, vec 3020 0 0, vec 0 3020 0, vec 0 0 3020] 3000 20 ! 0) \<noteq> 3000 + 20"
  by (simp add: normalizeControlPoints_def cloneControlPoints_def
      ensureMinimumCurveAltitude_def vlength_def lengthSq_def Let_def)

lemma vlength_zero_vec: "vlength (vec 0 0 0) = 0"
  by (simp add: vlength_def lengthSq_def)

lemma liftPoint_origin: "liftPoint sr (vec 0 0 0) = vec 0 0 0"
  by (simp add: liftPoint_cases vlength_zero_vec)

lemma generate_radius_zero:
  assumes "opt_radius options = 0"
  shows "generateParabolicControlPoints rds dep arr options ! 0 = vec 0 0 0"
proof -
  have o: "latLngToVector3 lat lng 0 = vec 0 0 0" for lat lng
    by (simp add: latLngToVector3_def)
  have n: "multiplyScalar (normalize (vec 0 0 0)) k = vec 0 0 0" for k
    by (simp add: normalize_zero vlength_zero_vec multiplyScalar_def)
  show ?thesis
    unfolding generateParabolicControlPoints_def Let_def ensure_map assms o n
    by (simp add: liftPoint_origin)
qed

text \<open>
  Claim C10 (the origin is not lifted). \<open>ensureMinimumCurveAltitude\<close> keeps the number
  and order of the points, leaves every zero-length point unchanged, changes a point only
  if its distance is strictly between 0 and the floor, and brings every point other than
  the origin to the floor or above. The origin therefore passes unchanged through
  \<open>normalizeControlPoints\<close> on a four-point input and through
  \<open>generateParabolicControlPoints\<close> (whose first point is the origin when the radius is
  0), and the output does not satisfy the floor for every input.
\<close>

theorem altitude_floor_skips_origin:
  "length (ensureMinimumCurveAltitude ps r m) = length ps
   \<and> (\<forall>i<length ps.
         (vlength (ps ! i) = 0 \<longrightarrow> ensureMinimumCurveAltitude ps r m ! i = ps ! i)
       \<and> (ensureMinimumCurveAltitude ps r m ! i \<noteq> ps ! i
            \<longrightarrow> 0 < vlength (ps ! i) \<and> vlength (ps ! i) < r + m)
       \<and> (0 < vlength (ps ! i) \<longrightarrow> r + m \<le> vlength (ensureMinimumCurveAltitude ps r m ! i)))
   \<and> ensureMinimumCurveAltitude [vec 0 0 0] r m = [vec 0 0 0]
   \<and> normalizeControlPoints three [vec 0 0 0, a, b, c] r m ! 0 = vec 0 0 0
   \<and> (opt_radius options = 0
        \<longrightarrow> generateParabolicControlPoints rds dep arr options ! 0 = vec 0 0 0)
   \<and> \<not> (\<forall>ps r m. \<forall>q\<in>set (ensureMinimumCurveAltitude ps r m). r + m \<le> vlength q)"
proof -
  have a: "length (ensureMinimumCurveAltitude ps r m) = length ps"
    by (simp add: ensure_map)
  have b: "\<forall>i<length ps.
         (vlength (ps ! i) = 0 \<longrightarrow> ensureMinimumCurveAltitude ps r m ! i = ps ! i)
       \<and> (ensureMinimumCurveAltitude ps r m ! i \<noteq> ps ! i
            \<longrightarrow> 0 < vlength (ps ! i) \<and> vlength (ps ! i) < r + m)
       \<and> (0 < vlength (ps ! i) \<longrightarrow> r + m \<le> vlength (ensureMinimumCurveAltitude ps r m ! i))"
    using liftPoint_changed liftPoint_floor
    by (auto simp: ensure_map liftPoint_cases(1))
  have c: "ensureMinimumCurveAltitude [vec 0 0 0] r m = [vec 0 0 0]"
    by (simp add: ensure_map liftPoint_origin)
  have d: "normalizeControlPoints three [vec 0 0 0, a, b, c] r m ! 0 = vec 0 0 0"
    by (simp add: normalizeControlPoints_def cloneControlPoints_def ensure_map liftPoint_origin)
  have e: "opt_radius options = 0
        \<longrightarrow> generateParabolicControlPoints rds dep arr options ! 0 = vec 0 0 0"
    using generate_radius_zero by blast
  have f: "\<not> (\<forall>ps r m. \<forall>q\<in>set (ensureMinimumCurveAltitude ps r m). r + m \<le> vlength q)"
  proof
    assume "\<forall>ps r m. \<forall>q\<in>set (ensureMinimumCurveAltitude ps r m). r + m \<le> vlength q"
    then have "\<forall>q\<in>set (ensureMinimumCurveAltitude [vec 0 0 0] 3000 20). 3000 + 20 \<le> vlength q"
      by blast
    then show False by (simp add: ensure_map liftPoint_origin vlength_zero_vec)
  qed
  from a b c d e f show ?thesis by blast
qed

text \<open>
  The origin and a point at distance 1510 under the floor 3020, and the path generator
  at radius 0.
\<close>

theorem altitude_floor_skips_origin_witness:
  "vlength ([vec 0 0 0, vec 0 1510 0] ! 0) = 0
   \<and> ensureMinimumCurveAltitude [vec 0 0 0, vec 0 1510 0] 3000 20 ! 0 = vec 0 0 0
   \<and> vlength ([vec 0 0 0, vec 0 1510 0] ! 1) = 1510
   \<and> 3000 + 20 \<le> vlength (ensureMinimumCurveAltitude [vec 0 0 0, vec 0 1510 0] 3000 20 ! 1)
   \<and> opt_radius zero_radius_options = 0
   \<and> generateParabolicControlPoints (vec 1 0 0, vec 1 0 0)
        \<lparr>geo_lat = 376 / 10, geo_lng = - 1224 / 10\<rparr> \<lparr>geo_lat = 406 / 10, geo_lng = - 738 / 10\<rparr>
        zero_radius_options ! 0 = vec 0 0 0"
proof -
  have v: "vlength ([vec 0 0 0, vec 0 1510 0] ! 0) = 0"
    "vlength ([vec 0 0 0, vec 0 1510 0] ! 1) = 1510"
    by (simp_all add: vlength_def lengthSq_def)
  have r: "opt_radius zero_radius_options = 0" by (simp add: zero_radius_options_def)
  note t = altitude_floor_skips_origin [of "[vec 0 0 0, vec 0 1510 0]" 3000 20 _ _ _ _
      zero_radius_options "(vec 1 0 0, vec 1 0 0)"
      "\<lparr>geo_lat = 376 / 10, geo_lng = - 1224 / 10\<rparr>" "\<lparr>geo_lat = 406 / 10, geo_lng = - 738 / 10\<rparr>"]
  from t v r show ?thesis by simp
qed

text \<open>
  Claim C6 (error-handling contract), as amended. An out-of-range slot index makes every
  slot-indexed operation of the two renderers a no-op on the renderer state;
  \<open>setCurve\<close> logs a warning for it, the other operations return silently. Fewer than
  2 control points make \<open>setCurve\<close> log a warning and change nothing else; fewer than 4
  make \<open>setCurveControlPoints\<close> log a warning and change nothing else.
\<close>

theorem slot_errors_are_noops:
  "((i < 0 \<or> int (maxCurves c) \<le> i) \<longrightarrow>
        setCurve three i cps col md c
          = c\<lparr>curvesLog := curvesLog c @ [CurveIndexOutOfBounds i]\<rparr>
      \<and> setCurveColor three i col md' c = c
      \<and> hideCurve i c = c
      \<and> \<not> isCurveVisible i c)
   \<and> (0 \<le> i \<and> i < int (maxCurves c) \<and> length cps < 2 \<longrightarrow>
        setCurve three i cps col md c = c\<lparr>curvesLog := curvesLog c @ [NeedTwoControlPoints]\<rparr>)
   \<and> ((j < 0 \<or> int (maxPanes p) \<le> j) \<longrightarrow>
        setCurveControlPoints j cps p = p
      \<and> setPaneColor j rgb p = p
      \<and> setPaneSize j sz p = p
      \<and> setElevationOffset j off p = p
      \<and> setAnimationSpeed j speed p = p
      \<and> setTiltMode j mode p = p
      \<and> hidePane j p = p
      \<and> setTextureIndex j textureIndex p = p)
   \<and> (0 \<le> j \<and> j < int (maxPanes p) \<and> length cps < 4 \<longrightarrow>
        setCurveControlPoints j cps p
          = p\<lparr>planesLog := planesLog p @ [PlanesNeedFourControlPoints]\<rparr>)"
  by (auto simp: setCurve_def setCurveColor_def hideCurve_def isCurveVisible_def
      setCurveControlPoints_def setPaneColor_def setPaneSize_def setElevationOffset_def
      setAnimationSpeed_def setTiltMode_def hidePane_def setTextureIndex_def)

lemma demo_curves_eval:
  "demo_curves = \<lparr>maxCurves = 2, segmentsPerCurve = 1, verticesPerSegment = 2,
      verticesPerCurve = 2, dashSize = 0, gapSize = 0,
      positions = [0, 0, 0, 0, 0, 0, 3020, 0, 0, 2950, 900, 0],
      colors = [0, 0, 0, 0, 0, 0, 0, 0, 0, 0, 0, 0],
      lineDistances = [0, 0, 0, sqrt 814900],
      currentCurveCount = 2,
      needsPositionUpdate = True, needsColorUpdate = True, needsLineDistanceUpdate = True,
      curveData = [\<lparr>controlPoints = [], color = ColorNumber 0xffffff, visible = False,
                     metadata = None\<rparr>,
                   \<lparr>controlPoints = demo_points, color = ColorNumber 0x4488ff, visible = True,
                     metadata = None\<rparr>],
      drawRange = (0, 4), curvesLog = []\<rparr>"
  by (simp add: demo_curves_def Curves_new_def setCurve_def Let_def curve_getPoints_def
      demo_three_def setCurve_step_def applyColorToCurve_def applyColor_step_def
      computeGradientParams_def resolveSolidColor_def updateDrawRange_def
      distanceTo_def vsub_def vlength_def lengthSq_def eval_nat_numeral)
     (simp add: demo_points_def)

text \<open>
  The contract at the demo renderers: slot 2 of 2 and slot 1 of 1 are out of range, and
  a single control point is too few.
\<close>

theorem slot_errors_are_noops_witness:
  "int (maxCurves demo_curves) \<le> 2 \<and> int (maxPanes demo_planes) \<le> 1
   \<and> setCurve demo_three 2 demo_points (ColorNumber 0) None demo_curves
       = demo_curves\<lparr>curvesLog := [CurveIndexOutOfBounds 2]\<rparr>
   \<and> hideCurve 2 demo_curves = demo_curves
   \<and> setCurve demo_three 0 [vec 1 2 3] (ColorNumber 0) None demo_curves
       = demo_curves\<lparr>curvesLog := [NeedTwoControlPoints]\<rparr>
   \<and> setCurveControlPoints 1 demo_points demo_planes = demo_planes
   \<and> hidePane 1 demo_planes = demo_planes
   \<and> setCurveControlPoints 0 [vec 1 2 3] demo_planes
       = demo_planes\<lparr>planesLog := [PlanesNeedFourControlPoints]\<rparr>"
proof -
  have h: "int (maxCurves demo_curves) \<le> 2" "int (maxPanes demo_planes) \<le> 1"
    "(0::int) < int (maxCurves demo_curves)" "(0::int) < int (maxPanes demo_planes)"
    "curvesLog demo_curves = []" "planesLog demo_planes = []"
    by (simp_all add: demo_curves_eval demo_planes_eval)
  have l: "length [vec 1 2 3] < 2" "length [vec 1 2 3] < 4" by simp_all
  note a = slot_errors_are_noops [of 2 demo_curves demo_three demo_points "ColorNumber 0" None
      _ 1 demo_planes]
  note b = slot_errors_are_noops [of 0 demo_curves demo_three "[vec 1 2 3]" "ColorNumber 0" None
      _ 0 demo_planes]
  show ?thesis using h l a b by simp
qed

text \<open>
  No warning is logged by \<open>hideCurve\<close> or by \<open>setCurveControlPoints\<close> for an out-of-range
  slot: the logs stay empty.
\<close>

theorem slot_errors_are_noops_counterexample:
  "int (maxCurves demo_curves) \<le> 2 \<and> curvesLog (hideCurve 2 demo_curves) = []
   \<and> int (maxPanes demo_planes) \<le> 1
   \<and> planesLog (setCurveControlPoints 1 demo_points demo_planes) = []"
  by (simp add: demo_curves_eval demo_planes_eval hideCurve_def setCurveControlPoints_def)

lemma smoothing_speed:
  "animationSpeed (fst (applyAnimationSpeedSmoothing dt (f, p)))
     = (let difference = animationSpeedTarget f - animationSpeed f in
        if \<bar>difference\<bar> < 1 / 100000 then animationSpeedTarget f
        else (let moved = animationSpeed f + difference * (if dt \<noteq> 0 then min 1 (dt * 6) else 1)
              in if \<bar>animationSpeedTarget f - moved\<bar> < 1 / 10000
                 then animationSpeedTarget f else moved))"
  "animationSpeedTarget (fst (applyAnimationSpeedSmoothing dt (f, p))) = animationSpeedTarget f"
  by (simp_all add: applyAnimationSpeedSmoothing_def Let_def)

lemma update_speed:
  "animationSpeed (fst (Flight_update dt w)) = animationSpeed (fst (applyAnimationSpeedSmoothing dt w))"
  "animationSpeedTarget (fst (Flight_update dt w))
     = animationSpeedTarget (fst (applyAnimationSpeedSmoothing dt w))"
  by (simp_all add: Flight_update_def split: prod.splits)

text \<open>
  Claim C9 (speed smoothing), as amended. \<open>setAnimationSpeed\<close> stores the target, and
  with the immediate option also the active speed. An update with a positive
  \<open>deltaTime\<close> moves the active speed by the fraction \<open>min 1 (deltaTime * 6)\<close> of the
  remaining difference and snaps it to the target when the result is within \<open>1e-4\<close> of
  it; an update with \<open>deltaTime = 0\<close> sets the active speed to the target at once.
\<close>

theorem speed_smoothing:
  "animationSpeedTarget (fst (Flight_setAnimationSpeed target immediate (f, p))) = target
   \<and> animationSpeed (fst (Flight_setAnimationSpeed target immediate (f, p)))
       = (if immediate then target else animationSpeed f)
   \<and> animationSpeedTarget (fst (Flight_update dt (f, p))) = animationSpeedTarget f
   \<and> (0 < dt \<longrightarrow>
        animationSpeed (fst (Flight_update dt (f, p)))
          = (let moved = animationSpeed f
                   + (animationSpeedTarget f - animationSpeed f) * min 1 (dt * 6)
             in if \<bar>animationSpeedTarget f - moved\<bar> < 1 / 10000
                then animationSpeedTarget f else moved))
   \<and> (dt = 0 \<longrightarrow> animationSpeed (fst (Flight_update dt (f, p))) = animationSpeedTarget f)"
proof -
  have a: "animationSpeedTarget (fst (Flight_setAnimationSpeed target immediate (f, p))) = target"
    "animationSpeed (fst (Flight_setAnimationSpeed target immediate (f, p)))
       = (if immediate then target else animationSpeed f)"
    by (simp_all add: Flight_setAnimationSpeed_def Let_def)
  have b: "animationSpeedTarget (fst (Flight_update dt (f, p))) = animationSpeedTarget f"
    by (simp add: update_speed smoothing_speed)
  let ?d = "animationSpeedTarget f - animationSpeed f"
  have c: "animationSpeed (fst (Flight_update dt (f, p)))
          = (let moved = animationSpeed f + ?d * min 1 (dt * 6)
             in if \<bar>animationSpeedTarget f - moved\<bar> < 1 / 10000
                then animationSpeedTarget f else moved)" if dt: "0 < dt"
  proof (cases "\<bar>?d\<bar> < 1 / 100000")
    case True
    let ?k = "min 1 (dt * 6)"
    have k: "0 \<le> ?k" "?k \<le> 1" using dt by auto
    have "animationSpeedTarget f - (animationSpeed f + ?d * ?k) = ?d * (1 - ?k)"
      by (simp add: algebra_simps)
    then have "\<bar>animationSpeedTarget f - (animationSpeed f + ?d * ?k)\<bar> = \<bar>?d\<bar> * \<bar>1 - ?k\<bar>"
      by (simp only: abs_mult)
    also have "\<dots> \<le> \<bar>?d\<bar> * 1"
      using k by (intro mult_left_mono) auto
    finally have "\<bar>animationSpeedTarget f - (animationSpeed f + ?d * ?k)\<bar> \<le> \<bar>?d\<bar>"
      by (simp only: mult_1_right)
    then have "\<bar>animationSpeedTarget f - (animationSpeed f + ?d * ?k)\<bar> < 1 / 100000"
      using True by (rule le_less_trans)
    moreover have "(1::real) / 100000 < 1 / 10000" by simp
    ultimately have "\<bar>animationSpeedTarget f - (animationSpeed f + ?d * ?k)\<bar> < 1 / 10000"
      by (rule less_trans)
    then show ?thesis using True dt
      by (simp add: update_speed smoothing_speed Let_def)
  next
    case False
    then show ?thesis using dt by (simp add: update_speed smoothing_speed Let_def)
  qed
  have d: "dt = 0 \<longrightarrow> animationSpeed (fst (Flight_update dt (f, p))) = animationSpeedTarget f"
    by (simp add: update_speed smoothing_speed Let_def)
  from a b c d show ?thesis by blast
qed

text \<open>
  From speed 0.1 towards 0.5: half of the way in 1/12 s, all of it in 1 s, all of it
  with \<open>deltaTime = 0\<close>, and at once with the immediate option.
\<close>

theorem speed_smoothing_witness:
  "animationSpeed (fst (Flight_update (1 / 12)
       (Flight_setAnimationSpeed (1 / 2) False (demo_flight, demo_planes)))) = 3 / 10
   \<and> animationSpeed (fst (Flight_update 1
       (Flight_setAnimationSpeed (1 / 2) False (demo_flight, demo_planes)))) = 1 / 2
   \<and> animationSpeed (fst (Flight_update 0
       (Flight_setAnimationSpeed (1 / 2) False (demo_flight, demo_planes)))) = 1 / 2
   \<and> animationSpeed (fst (Flight_setAnimationSpeed (1 / 2) True (demo_flight, demo_planes)))
       = 1 / 2"
proof -
  obtain f p where w: "Flight_setAnimationSpeed (1 / 2) False (demo_flight, demo_planes) = (f, p)"
    by (cases "Flight_setAnimationSpeed (1 / 2) False (demo_flight, demo_planes)") auto
  have f: "animationSpeedTarget f = 1 / 2" "animationSpeed f = 1 / 10"
    using speed_smoothing [of "1 / 2" False demo_flight demo_planes] w
    by (simp_all add: demo_flight_def)
  have i: "animationSpeed (fst (Flight_setAnimationSpeed (1 / 2) True (demo_flight, demo_planes)))
       = 1 / 2"
    using speed_smoothing [of "1 / 2" True demo_flight demo_planes] by simp
  note t1 = speed_smoothing [of "1 / 2" False f p "1 / 12", unfolded f]
  note t2 = speed_smoothing [of "1 / 2" False f p 1, unfolded f]
  note t3 = speed_smoothing [of "1 / 2" False f p 0, unfolded f]
  from t1 have a: "animationSpeed (fst (Flight_update (1 / 12) (f, p))) = 3 / 10"
    by (simp add: Let_def)
  from t2 have b: "animationSpeed (fst (Flight_update 1 (f, p))) = 1 / 2"
    by (simp add: Let_def)
  from t3 have c: "animationSpeed (fst (Flight_update 0 (f, p))) = 1 / 2"
    by (simp add: Let_def)
  show ?thesis unfolding w using a b c i by simp
qed

text \<open>
  With \<open>deltaTime = 0\<close> the update does not move the speed by the fraction
  \<open>min 1 (0 * 6) = 0\<close> of the difference: it jumps to the target.
\<close>

theorem speed_smoothing_counterexample:
  "animationSpeed (fst (Flight_update 0
       (Flight_setAnimationSpeed (1 / 2) False (demo_flight, demo_planes))))
     \<noteq> animationSpeed demo_flight
         + (1 / 2 - animationSpeed demo_flight) * min 1 (0 * 6)"
  by (simp add: Flight_update_def Flight_setAnimationSpeed_def applyAnimationSpeedSmoothing_def
      demo_flight_def Let_def split: prod.splits)

lemma latLng_vy: "vy (latLngToVector3 lat lng r) = r * cos ((90 - lat) * pi / 180)"
  by (simp add: latLngToVector3_def Let_def)

lemma latLng_lengthSq: "lengthSq (latLngToVector3 lat lng r) = r\<^sup>2"
proof -
  have "latLngToVector3 lat lng r
     = axisRemap (sphericalToCartesian r ((90 - lat) * pi / 180) ((180 - lng) * pi / 180))"
    by (simp add: latLngToVector3_def axisRemap_def sphericalToCartesian_def Let_def
        add.commute)
  then show ?thesis by (simp add: lengthSq_axisRemap lengthSq_spherical)
qed

lemma latLng_vlength: "vlength (latLngToVector3 lat lng r) = \<bar>r\<bar>"
  by (simp add: vlength_def latLng_lengthSq)

lemma vlength_pos_of_vy: "0 < vy v \<Longrightarrow> 0 < vlength v"
proof -
  assume "0 < vy v"
  then have "0 < vy v * vy v" by simp
  moreover have "0 \<le> vx v * vx v" "0 \<le> vz v * vz v" by simp_all
  ultimately have "0 < lengthSq v" unfolding lengthSq_def by linarith
  then show ?thesis by (simp add: vlength_def)
qed

lemma vy_multiplyScalar [simp]: "vy (multiplyScalar v s) = vy v * s"
  by (simp add: multiplyScalar_def)

lemma vy_lerp: "vy (lerp a b t) = (1 - t) * vy a + t * vy b"
  by (simp add: lerp_def algebra_simps)

lemma lerp_pos:
  assumes "0 < vy a" "0 < vy b" "0 \<le> t" "t \<le> 1"
  shows "0 < vlength (lerp a b t)"
proof -
  have "0 < (1 - t) * vy a + t * vy b"
  proof (cases "t = 0")
    case True
    then show ?thesis using assms by simp
  next
    case False
    then have "0 < t * vy b" using assms by simp
    moreover have "0 \<le> (1 - t) * vy a" using assms by simp
    ultimately show ?thesis by linarith
  qed
  then show ?thesis by (intro vlength_pos_of_vy) (simp add: vy_lerp)
qed

lemma vlength_scaled_unit:
  "0 < vlength v \<Longrightarrow> vlength (multiplyScalar (normalize v) k) = \<bar>k\<bar>"
  by (simp add: vlength_multiplyScalar vlength_normalize)

lemma vlength_zero_components: "vlength v = 0 \<Longrightarrow> vx v = 0 \<and> vy v = 0 \<and> vz v = 0"
proof -
  assume "vlength v = 0"
  then have "lengthSq v = 0" by (simp add: vlength_def)
  then have "vx v * vx v + (vy v * vy v + vz v * vz v) = 0" by (simp add: lengthSq_def)
  then show ?thesis by (smt (verit) mult_eq_0_iff zero_le_square)
qed

lemma vadd_pos:
  assumes "vlength x < vlength s"
  shows "0 < vlength (vadd s x)"
proof (rule ccontr)
  assume "\<not> 0 < vlength (vadd s x)"
  then have "vlength (vadd s x) = 0" using vlength_nonneg [of "vadd s x"] by simp
  then have "vx s + vx x = 0 \<and> vy s + vy x = 0 \<and> vz s + vz x = 0"
    using vlength_zero_components [of "vadd s x"] by (simp add: vadd_def)
  then have "vx x = - vx s" "vy x = - vy s" "vz x = - vz s" by auto
  then have "lengthSq x = lengthSq s" by (simp add: lengthSq_def)
  then show False using assms by (simp add: vlength_def)
qed

lemma tangentAt_le: "vlength (tangentAt rd a b) \<le> 1"
  by (simp add: tangentAt_def Let_def vlength_normalize_le)

lemma tangent_point_length:
  assumes "\<bar>d\<bar> < vlength s"
  shows "vlength (multiplyScalar (normalize (vadd s (multiplyScalar (tangentAt rd s e) d)))
            (vlength s)) = vlength s"
proof -
  have "vlength (multiplyScalar (tangentAt rd s e) d) = \<bar>d\<bar> * vlength (tangentAt rd s e)"
    by (simp add: vlength_multiplyScalar)
  also have "\<dots> \<le> \<bar>d\<bar> * 1"
    by (intro mult_left_mono tangentAt_le) simp
  finally have "vlength (multiplyScalar (tangentAt rd s e) d) < vlength s"
    using assms by simp
  then have "0 < vlength (vadd s (multiplyScalar (tangentAt rd s e) d))"
    by (rule vadd_pos)
  then show ?thesis using vlength_nonneg [of s] by (simp add: vlength_scaled_unit)
qed

lemma powr_unit_interval:
  assumes "0 \<le> (x::real)" "x \<le> 1"
  shows "0 \<le> x powr (7 / 10)" "x powr (7 / 10) \<le> 1"
proof -
  show "0 \<le> x powr (7 / 10)" by simp
  have "x powr (7 / 10) \<le> 1 powr (7 / 10)"
    using assms by (intro powr_mono2) auto
  then show "x powr (7 / 10) \<le> 1" by simp
qed

text \<open>
  The nine generated points respect the altitude floor whenever both end points lie in
  the northern hemisphere, for a positive radius and non-negative minimum and cruise
  altitudes, whatever \<^verbatim>\<open>randomDirection()\<close> returns. This covers the generation half of
  the parabolic scenario (departure 37.6, -122.4; arrival 40.6, -73.8; radius 3000).
\<close>

lemma parabolic_points_floor:
  assumes r: "0 < opt_radius options" and a: "0 \<le> opt_minCurveAltitude options"
    and c: "0 \<le> opt_maxCruiseAltitude options"
    and d: "0 < geo_lat dep" "geo_lat dep \<le> 90"
    and e: "0 < geo_lat arr" "geo_lat arr \<le> 90"
  shows "length (generateParabolicControlPoints rds dep arr options) = 9"
    and "\<forall>q\<in>set (generateParabolicControlPoints rds dep arr options).
           opt_radius options + opt_minCurveAltitude options \<le> vlength q"
proof -
  define R where "R = opt_radius options"
  define so where "so = max (opt_takeoffOffset options) (opt_minCurveAltitude options)"
  define cmin where "cmin = max (opt_minCruiseAltitude options) (so + 5)"
  define o1 where "o1 = latLngToVector3 (geo_lat dep) (geo_lng dep) R"
  define o2 where "o2 = latLngToVector3 (geo_lat arr) (geo_lng arr) R"
  define S where "S = multiplyScalar (normalize o1) (R + so)"
  define E where "E = multiplyScalar (normalize o2) (R + so)"
  define rho where "rho = min (distanceTo S E / (R * pi * (3 / 10))) 1 powr (7 / 10)"
  define ca where "ca = cmin + (opt_maxCruiseAltitude options - cmin) * rho"
  define raw where "raw = [S,
     multiplyScalar (normalize (vadd S (multiplyScalar (tangentAt (fst rds) S E) (R * (8 / 100)))))
       (vlength S),
     multiplyScalar (normalize (lerp S E (2 / 10))) (R + ca * (4 / 10)),
     multiplyScalar (normalize (lerp S E (35 / 100))) (R + ca * (75 / 100)),
     multiplyScalar (normalize (lerp S E (5 / 10))) (R + ca * (85 / 100)),
     multiplyScalar (normalize (lerp S E (65 / 100))) (R + ca * (75 / 100)),
     multiplyScalar (normalize (lerp S E (8 / 10))) (R + ca * (4 / 10)),
     multiplyScalar (normalize (vadd E (multiplyScalar (tangentAt (snd rds) E S) (R * (8 / 100)))))
       (vlength E),
     E]"
  have gen: "generateParabolicControlPoints rds dep arr options
      = map (liftPoint (R + opt_minCurveAltitude options)) raw"
    unfolding generateParabolicControlPoints_def Let_def ensure_map
    unfolding raw_def S_def E_def ca_def rho_def cmin_def so_def o1_def o2_def R_def
    by (rule refl)
  have R: "0 < R" using r by (simp add: R_def)
  have so: "0 \<le> so" using a by (simp add: so_def)
  have cmin: "0 \<le> cmin" using so by (simp add: cmin_def)
  have cosd: "0 < cos ((90 - geo_lat dep) * pi / 180)"
    using d by (intro cos_gt_zero_pi) (auto simp: field_simps intro: pi_gt_zero)
  have cose: "0 < cos ((90 - geo_lat arr) * pi / 180)"
    using e by (intro cos_gt_zero_pi) (auto simp: field_simps)
  have lo: "vlength o1 = R" "vlength o2 = R"
    using R by (simp_all add: o1_def o2_def latLng_vlength)
  have yo: "0 < vy o1" "0 < vy o2"
    using R cosd cose by (simp_all add: o1_def o2_def latLng_vy)
  have Sn: "S = multiplyScalar o1 ((R + so) / R)" "E = multiplyScalar o2 ((R + so) / R)"
    using R lo by (simp_all add: S_def E_def normalize_pos multiplyScalar_twice)
  have k: "0 < (R + so) / R" using R so by simp
  have "0 < vy o1 * ((R + so) / R)" "0 < vy o2 * ((R + so) / R)"
    using yo k by (simp_all only: mult_pos_pos)
  then have yS: "0 < vy S" "0 < vy E" by (simp_all only: Sn vy_multiplyScalar)
  have lS: "vlength S = R + so" "vlength E = R + so"
    using R so lo by (simp_all add: S_def E_def vlength_scaled_unit)
  have rho: "0 \<le> rho" "rho \<le> 1"
  proof -
    have "0 \<le> distanceTo S E / (R * pi * (3 / 10))"
      using R by (simp add: distanceTo_def vlength_nonneg)
    then have b: "0 \<le> min (distanceTo S E / (R * pi * (3 / 10))) 1" by simp
    have b': "min (distanceTo S E / (R * pi * (3 / 10))) 1 \<le> 1" by simp
    show "0 \<le> rho" "rho \<le> 1"
      unfolding rho_def using powr_unit_interval [OF b b'] by simp_all
  qed
  have ca: "0 \<le> ca"
  proof -
    have "ca = (1 - rho) * cmin + rho * opt_maxCruiseAltitude options"
      by (simp add: ca_def algebra_simps)
    moreover have "0 \<le> (1 - rho) * cmin" using rho cmin by simp
    moreover have "0 \<le> rho * opt_maxCruiseAltitude options" using rho c by simp
    ultimately show ?thesis by linarith
  qed
  have lp: "0 < vlength (lerp S E t)" if "0 \<le> t" "t \<le> 1" for t
    using yS that by (intro lerp_pos)
  have climb: "0 < vlength (multiplyScalar (normalize (lerp S E t)) (R + ca * w))"
    if "0 \<le> t" "t \<le> 1" "0 \<le> w" for t w
  proof -
    have "0 < R + ca * w" using R ca that by (simp add: add_pos_nonneg)
    then show ?thesis using lp [OF that(1,2)] by (simp add: vlength_scaled_unit)
  qed
  have td: "\<bar>R * (8 / 100)\<bar> < vlength S" "\<bar>R * (8 / 100)\<bar> < vlength E"
    using R so by (simp_all add: lS)
  have tS: "0 < vlength (multiplyScalar (normalize (vadd S (multiplyScalar (tangentAt (fst rds) S E)
              (R * (8 / 100))))) (vlength S))"
    using tangent_point_length [OF td(1), of "fst rds" E] R so lS by simp
  have tE: "0 < vlength (multiplyScalar (normalize (vadd E (multiplyScalar (tangentAt (snd rds) E S)
              (R * (8 / 100))))) (vlength E))"
    using tangent_point_length [OF td(2), of "snd rds" S] R so lS by simp
  have c1: "0 < vlength (multiplyScalar (normalize (lerp S E (2 / 10))) (R + ca * (4 / 10)))"
    by (rule climb) simp_all
  have c2: "0 < vlength (multiplyScalar (normalize (lerp S E (35 / 100))) (R + ca * (75 / 100)))"
    by (rule climb) simp_all
  have c3: "0 < vlength (multiplyScalar (normalize (lerp S E (5 / 10))) (R + ca * (85 / 100)))"
    by (rule climb) simp_all
  have c4: "0 < vlength (multiplyScalar (normalize (lerp S E (65 / 100))) (R + ca * (75 / 100)))"
    by (rule climb) simp_all
  have c5: "0 < vlength (multiplyScalar (normalize (lerp S E (8 / 10))) (R + ca * (4 / 10)))"
    by (rule climb) simp_all
  have pS: "0 < vlength S" "0 < vlength E" using lS R so by simp_all
  have "list_all (\<lambda>p. 0 < vlength p) raw"
    unfolding raw_def using pS tS tE c1 c2 c3 c4 c5 by (simp only: list.pred_inject simp_thms)
  then have pos: "\<forall>p\<in>set raw. 0 < vlength p" by (simp only: list_all_iff)
  show "length (generateParabolicControlPoints rds dep arr options) = 9"
    by (simp add: gen raw_def)
  show "\<forall>q\<in>set (generateParabolicControlPoints rds dep arr options).
           opt_radius options + opt_minCurveAltitude options \<le> vlength q"
    unfolding gen using pos liftPoint_floor by (auto simp: R_def)
qed

text \<open>
  On an input that does not have four points, \<open>normalizeControlPoints\<close> applies the floor
  to the four samples of the library's spline.
\<close>

lemma normalize_resample:
  assumes "length ps \<noteq> 4" "ps \<noteq> []"
  shows "normalizeControlPoints three ps r m
       = map (liftPoint (r + m))
           [curve_getPoint three ps 0, curve_getPoint three ps (333 / 1000),
            curve_getPoint three ps (666 / 1000), curve_getPoint three ps 1]"
  using assms
  by (simp add: normalizeControlPoints_def cloneControlPoints_def ensure_map Let_def)

text \<open>
  The parabolic scenario over exact arithmetic: nine points at distance at least 3020,
  resampled to four points; these are at distance at least 3020 provided none of the
  four samples the library returns is the origin, which the floor would leave in place.
\<close>

lemma parabolic_scenario:
  fixes rds three
  defines "pts \<equiv> generateParabolicControlPoints rds scenario_departure scenario_arrival
                    scenario_options"
  shows "length pts = 9"
    and "\<forall>q\<in>set pts. 3020 \<le> vlength q"
    and "length (normalizeControlPoints three pts 3000 20) = 4"
    and "0 < vlength (curve_getPoint three pts 0) \<Longrightarrow>
         0 < vlength (curve_getPoint three pts (333 / 1000)) \<Longrightarrow>
         0 < vlength (curve_getPoint three pts (666 / 1000)) \<Longrightarrow>
         0 < vlength (curve_getPoint three pts 1) \<Longrightarrow>
         \<forall>q\<in>set (normalizeControlPoints three pts 3000 20). 3020 \<le> vlength q"
proof -
  have h: "0 < opt_radius scenario_options" "0 \<le> opt_minCurveAltitude scenario_options"
    "0 \<le> opt_maxCruiseAltitude scenario_options"
    "0 < geo_lat scenario_departure" "geo_lat scenario_departure \<le> 90"
    "0 < geo_lat scenario_arrival" "geo_lat scenario_arrival \<le> 90"
    by (simp_all add: scenario_options_def scenario_departure_def scenario_arrival_def)
  note f = parabolic_points_floor [OF h, of rds]
  show l: "length pts = 9" unfolding pts_def by (rule f(1))
  show "\<forall>q\<in>set pts. 3020 \<le> vlength q"
    unfolding pts_def using f(2) by (simp add: scenario_options_def)
  have ne: "length pts \<noteq> 4" "pts \<noteq> []" using l by auto
  note n = normalize_resample [OF ne, of three 3000 20]
  show "length (normalizeControlPoints three pts 3000 20) = 4" by (simp add: n)
  show "\<forall>q\<in>set (normalizeControlPoints three pts 3000 20). 3020 \<le> vlength q"
    if "0 < vlength (curve_getPoint three pts 0)"
      "0 < vlength (curve_getPoint three pts (333 / 1000))"
      "0 < vlength (curve_getPoint three pts (666 / 1000))"
      "0 < vlength (curve_getPoint three pts 1)"
    using that liftPoint_floor [of _ 3020] by (simp add: n)
qed

end
